theory Spec2Isabelle
  imports Complex_Main "HOL-Library.Sublist"
begin

section \<open>Python values and containers used by the engine\<close>

text \<open>
  Strings are lists of characters; a character stands for a code point below 256.
  \<open>str.lower()\<close> on such code points maps A-Z and the Latin-1 capitals
  (0xC0-0xDE except the multiplication sign 0xD7) to the code point 32 above.
\<close>

definition py_lower_char :: "char \<Rightarrow> char" where
  "py_lower_char c =
     (let n = (of_char c :: nat)
      in if (65 \<le> n \<and> n \<le> 90) \<or> (192 \<le> n \<and> n \<le> 222 \<and> n \<noteq> 215)
         then char_of (n + 32) else c)"

definition py_lower :: "string \<Rightarrow> string" where
  "py_lower s = map py_lower_char s"

text \<open>\<open>sub in s\<close> on strings: \<open>sub\<close> occurs as a contiguous slice of \<open>s\<close>.\<close>

fun str_contains :: "string \<Rightarrow> string \<Rightarrow> bool" where
  "str_contains sub [] = (sub = [])"
| "str_contains sub (c # cs) = (prefix sub (c # cs) \<or> str_contains sub cs)"

definition endswith :: "string \<Rightarrow> string \<Rightarrow> bool" where
  "endswith s suf = suffix suf s"

text \<open>
  What \<open>json.load\<close> returns. Numbers are the integers (JSON literals with a fraction or
  an exponent, which load as floats, are outside the model). An object is the list of
  the items of the loaded \<open>dict\<close> in insertion order; a loaded \<open>dict\<close> has distinct keys.
\<close>

datatype json =
    JNull
  | JBool bool
  | JInt int
  | JStr string
  | JArr "json list"
  | JObj "(string \<times> json) list"

text \<open>\<open>key in d\<close> and \<open>d.get(key, dflt)\<close> for a loaded object.\<close>

definition has_key :: "(string \<times> json) list \<Rightarrow> string \<Rightarrow> bool" where
  "has_key d k = (map_of d k \<noteq> None)"

definition dict_get :: "(string \<times> json) list \<Rightarrow> string \<Rightarrow> json \<Rightarrow> json" where
  "dict_get d k dflt = (case map_of d k of None \<Rightarrow> dflt | Some v \<Rightarrow> v)"

text \<open>
  \<open>0 + v\<close> and \<open>n + v\<close> for an int \<open>n\<close>: defined for ints and for bools (a subclass of
  int), a \<open>TypeError\<close> (\<open>None\<close> here) for \<open>None\<close>, strings, lists and dicts.
\<close>

fun as_int :: "json \<Rightarrow> int option" where
  "as_int (JInt n) = Some n"
| "as_int (JBool b) = Some (if b then 1 else 0)"
| "as_int _ = None"

text \<open>
  A value can be a \<open>dict\<close> key when it is hashable: lists and dicts are not. Keys are
  compared with \<open>==\<close>, under which \<open>True == 1\<close> and \<open>False == 0\<close>.
\<close>

fun hashable :: "json \<Rightarrow> bool" where
  "hashable (JArr _) = False"
| "hashable (JObj _) = False"
| "hashable _ = True"

fun key_norm :: "json \<Rightarrow> json" where
  "key_norm (JBool b) = JInt (if b then 1 else 0)"
| "key_norm v = v"

text \<open>
  An insertion-ordered \<open>dict\<close> as an association list. \<open>od_get\<close> is the lookup,
  \<open>od_set\<close> is \<open>d[k] = v\<close>: an existing key keeps its place (and its first key object),
  a new key goes to the end. \<open>nk\<close> is the normal form under which keys are compared.
\<close>

fun od_get :: "('k \<Rightarrow> 'n) \<Rightarrow> ('k \<times> 'v) list \<Rightarrow> 'k \<Rightarrow> 'v option" where
  "od_get nk [] k = None"
| "od_get nk ((k', v') # d) k = (if nk k' = nk k then Some v' else od_get nk d k)"

fun od_set :: "('k \<Rightarrow> 'n) \<Rightarrow> ('k \<times> 'v) list \<Rightarrow> 'k \<Rightarrow> 'v \<Rightarrow> ('k \<times> 'v) list" where
  "od_set nk [] k v = [(k, v)]"
| "od_set nk ((k', v') # d) k v =
     (if nk k' = nk k then (k', v) # d else (k', v') # od_set nk d k v)"

text \<open>
  \<open>d[k]\<close> on a \<open>defaultdict\<close>: a missing key is inserted with the default before it is
  returned.
\<close>

definition dd_touch :: "('k \<Rightarrow> 'n) \<Rightarrow> 'v \<Rightarrow> ('k \<times> 'v) list \<Rightarrow> 'k \<Rightarrow> ('k \<times> 'v) list" where
  "dd_touch nk dflt d k = (case od_get nk d k of None \<Rightarrow> od_set nk d k dflt | Some _ \<Rightarrow> d)"

definition dd_get :: "('k \<Rightarrow> 'n) \<Rightarrow> 'v \<Rightarrow> ('k \<times> 'v) list \<Rightarrow> 'k \<Rightarrow> 'v" where
  "dd_get nk dflt d k = (case od_get nk d k of None \<Rightarrow> dflt | Some v \<Rightarrow> v)"

text \<open>
  \<open>sorted(xs, key=f, reverse=True)\<close> and \<open>xs.sort(key=f, reverse=True)\<close>: descending by
  key, stable (elements with equal keys keep their order).
\<close>

definition sorted_desc :: "('a \<Rightarrow> int) \<Rightarrow> 'a list \<Rightarrow> 'a list" where
  "sorted_desc f xs = sort_key (\<lambda>x. - f x) xs"

section \<open>Regular expressions as \<open>re.findall\<close> runs them\<close>

text \<open>
  The three patterns of \<open>extract_imports\<close> use anchors, literals, character classes,
  greedy and lazy repetition of a class, sequence, alternation and groups. A match
  position is the rest of the subject together with a flag telling whether the position
  is at the start of a line (\<open>^\<close> under \<open>re.MULTILINE\<close>: the start of the subject or
  just after a newline). \<open>rx_match\<close> lists the ways a pattern can match at a position in
  the order in which the backtracking matcher tries them, so the match that \<open>re\<close>
  reports is the head of the list.
\<close>

definition is_space :: "char \<Rightarrow> bool" where
  \<comment> \<open>\<open>\s\<close> on \<open>str\<close>: the code points below 256 for which \<open>str.isspace()\<close> holds\<close>
  "is_space c = (c \<in> set [CHR 0x09, CHR 0x0A, CHR 0x0B, CHR 0x0C, CHR 0x0D, CHR 0x1C, CHR 0x1D,
                            CHR 0x1E, CHR 0x1F, CHR 0x20, CHR 0x85, CHR 0xA0])"

definition is_quote :: "char \<Rightarrow> bool" where
  "is_quote c = (c = CHR 0x27 \<or> c = CHR 0x22)"

datatype rx =
    Bol
  | Lit string
  | Cls "char \<Rightarrow> bool"
  | Star "char \<Rightarrow> bool"
  | Plus "char \<Rightarrow> bool"
  | LazyStar "char \<Rightarrow> bool"
  | Seq rx rx
  | Alt rx rx
  | Grp nat rx

type_synonym mpos = "bool \<times> string"
type_synonym caps = "(nat \<times> string) list"

definition advance :: "string \<Rightarrow> mpos \<Rightarrow> mpos" where
  "advance l p = (if l = [] then p else (last l = CHR 0x0A, drop (length l) (snd p)))"

text \<open>Greedy repetition tries the longest run first, lazy repetition the shortest.\<close>

fun star_ends :: "(char \<Rightarrow> bool) \<Rightarrow> bool \<Rightarrow> string \<Rightarrow> mpos list" where
  "star_ends P b [] = [(b, [])]"
| "star_ends P b (c # cs) =
     (if P c then star_ends P (c = CHR 0x0A) cs @ [(b, c # cs)] else [(b, c # cs)])"

fun lazy_ends :: "(char \<Rightarrow> bool) \<Rightarrow> bool \<Rightarrow> string \<Rightarrow> mpos list" where
  "lazy_ends P b [] = [(b, [])]"
| "lazy_ends P b (c # cs) =
     (b, c # cs) # (if P c then lazy_ends P (c = CHR 0x0A) cs else [])"

fun rx_match :: "rx \<Rightarrow> mpos \<Rightarrow> caps \<Rightarrow> (mpos \<times> caps) list" where
  "rx_match Bol p g = (if fst p then [(p, g)] else [])"
| "rx_match (Lit l) p g = (if prefix l (snd p) then [(advance l p, g)] else [])"
| "rx_match (Cls P) p g =
     (case snd p of [] \<Rightarrow> [] | c # cs \<Rightarrow> if P c then [((c = CHR 0x0A, cs), g)] else [])"
| "rx_match (Star P) p g = map (\<lambda>q. (q, g)) (star_ends P (fst p) (snd p))"
| "rx_match (Plus P) p g =
     (case snd p of [] \<Rightarrow> []
      | c # cs \<Rightarrow> if P c then map (\<lambda>q. (q, g)) (star_ends P (c = CHR 0x0A) cs) else [])"
| "rx_match (LazyStar P) p g = map (\<lambda>q. (q, g)) (lazy_ends P (fst p) (snd p))"
| "rx_match (Seq r1 r2) p g = concat (map (\<lambda>(q, h). rx_match r2 q h) (rx_match r1 p g))"
| "rx_match (Alt r1 r2) p g = rx_match r1 p g @ rx_match r2 p g"
| "rx_match (Grp n r) p g =
     map (\<lambda>(q, h). (q, (n, take (length (snd p) - length (snd q)) (snd p)) # filter (\<lambda>e. fst e \<noteq> n) h))
         (rx_match r p g)"

definition step_char :: "mpos \<Rightarrow> mpos" where
  "step_char p = (case snd p of [] \<Rightarrow> p | c # cs \<Rightarrow> (c = CHR 0x0A, cs))"

text \<open>
  \<open>re.findall\<close>: scan from left to right; where the pattern matches, record the groups
  and go on from the end of the match, elsewhere move one character on. (None of the
  patterns below can match the empty string; after an empty match the scan here moves
  one character on.)
\<close>

function findall_from :: "rx \<Rightarrow> mpos \<Rightarrow> caps list" where
  "findall_from r p =
     (case rx_match r p [] of
        [] \<Rightarrow> (if snd p = [] then [] else findall_from r (step_char p))
      | (q, g) # _ \<Rightarrow>
          g # (if length (snd q) < length (snd p) then findall_from r q
               else if snd p = [] then [] else findall_from r (step_char p)))"
  by pat_completeness auto
termination
  by (relation "measure (\<lambda>(r, p). length (snd p))") (auto simp: step_char_def split: list.splits)

declare findall_from.simps [simp del]

definition findall :: "rx \<Rightarrow> string \<Rightarrow> caps list" where
  "findall r s = findall_from r (True, s)"

text \<open>The text of a group, \<open>''\<close> for a group that took no part in the match.\<close>

definition match_group :: "caps \<Rightarrow> nat \<Rightarrow> string" where
  "match_group g n = (case map_of g n of None \<Rightarrow> [] | Some s \<Rightarrow> s)"

text \<open>\<^verbatim>\<open>^\s*(?:import|from)\s+([^\s,]+)\<close>\<close>

definition py_import_re :: rx where
  "py_import_re =
     Seq Bol (Seq (Star is_space) (Seq (Alt (Lit ''import'') (Lit ''from''))
       (Seq (Plus is_space) (Grp 1 (Plus (\<lambda>c. \<not> is_space c \<and> c \<noteq> CHR '',''))))))"

text \<open>\<^verbatim>\<open>^\s*(?:import\s.*?from\s+['"]([^'"]+)['"])|(?:require\(['"]([^'"]+)['"]\))\<close>\<close>

definition js_import_re :: rx where
  "js_import_re =
     Alt (Seq Bol (Seq (Star is_space) (Seq (Lit ''import'') (Seq (Cls is_space)
            (Seq (LazyStar (\<lambda>c. c \<noteq> CHR 0x0A)) (Seq (Lit ''from'') (Seq (Plus is_space)
              (Seq (Cls is_quote) (Seq (Grp 1 (Plus (\<lambda>c. \<not> is_quote c))) (Cls is_quote))))))))))
         (Seq (Lit ''require('') (Seq (Cls is_quote)
            (Seq (Grp 2 (Plus (\<lambda>c. \<not> is_quote c))) (Seq (Cls is_quote) (Lit '')'')))))"

text \<open>\<^verbatim>\<open>^\s*import\s+([^\s;]+);\<close>\<close>

definition java_import_re :: rx where
  "java_import_re =
     Seq Bol (Seq (Star is_space) (Seq (Lit ''import'') (Seq (Plus is_space)
       (Seq (Grp 1 (Plus (\<lambda>c. \<not> is_space c \<and> c \<noteq> CHR '';''))) (Lit '';'')))))"

section \<open>SnapshotGenerator\<close>

definition COMMON_AVOID_FOLDERS :: "string list" where
  "COMMON_AVOID_FOLDERS =
     [''node_modules'', ''venv'', ''env'', ''__pycache__'', ''site-packages'', ''myenv'',
      ''target'', ''bin'', ''build'', ''obj'', ''vendor'', ''.git'', ''.hg'', ''.svn'']"

definition COMMON_AVOID_FILES :: "string list" where
  "COMMON_AVOID_FILES =
     [''package-lock.json'', ''yarn.lock'', ''pnpm-lock.yaml'', ''Cargo.lock'',
      ''Pipfile.lock'', ''composer.lock'', ''.DS_Store'', ''thumbs.db'', ''Thumbs.db'',
      ''npm-debug.log'', ''yarn-error.log'', ''Dockerfile'', ''docker-compose.yml'',
      ''.env'', ''.gitignore'', ''.gitattributes'', ''Makefile'']"

definition KEY_FILES :: "string list" where
  "KEY_FILES =
     [''Dockerfile'', ''.dockerignore'', ''package.json'', ''requirements.txt'',
      ''Pipfile'', ''composer.json'', ''Gemfile'', ''build.gradle'', ''pom.xml'',
      ''Cargo.toml'', ''Makefile'']"

definition INCLUDE_EXTENSIONS :: "string list" where
  "INCLUDE_EXTENSIONS =
     [''.js'', ''.mjs'', ''.jsx'', ''.ts'', ''.tsx'', ''.py'', ''.java'', ''.cs'', ''.csproj'',
      ''.cpp'', ''.hpp'', ''.h'', ''.cc'', ''.c'', ''.h'', ''.rb'', ''.erb'', ''.rake'',
      ''.php'', ''.phtml'', ''.php3'', ''.php4'', ''.php5'', ''.phps'', ''.swift'',
      ''.kt'', ''.kts'', ''.go'', ''.R'', ''.r'', ''.pl'', ''.pm'', ''.t'', ''.sh'', ''.bash'',
      ''.html'', ''.htm'', ''.css'', ''.scss'', ''.sass'', ''.less'', ''.sql'',
      ''.scala'', ''.sc'', ''.hs'', ''.lhs'', ''.lua'', ''.rs'', ''.dart'', ''.m'', ''.jl'',
      ''.vb'', ''.vbs'', ''.asm'', ''.s'', ''.fs'', ''.fsi'', ''.fsx'',
      ''.groovy'', ''.gvy'', ''.gy'', ''.gsh'', ''.erl'', ''.hrl'', ''.ex'', ''.exs'',
      ''.cob'', ''.cbl'', ''.f'', ''.for'', ''.f90'', ''.f95'', ''.adb'', ''.ads'',
      ''.pl'', ''.pro'', ''.P'', ''.lisp'', ''.lsp'', ''.scm'', ''.ss'', ''.rkt'',
      ''.v'', ''.vh'', ''.vhdl'', ''.vhd'', ''.md'', ''.markdown'',
      ''.vue'', ''.svelte'', ''.ipynb'',
      ''.json'', ''.yaml'', ''.yml'', ''.xml'', ''.gitignore'', ''.gitattributes'',
      ''.travis.yml'', ''Jenkinsfile'', ''.circleci/config.yml'', ''.gitlab-ci.yml'',
      ''azure-pipelines.yml'']"

definition BINARY_EXTENSIONS :: "string list" where
  "BINARY_EXTENSIONS =
     [''.png'', ''.jpg'', ''.jpeg'', ''.gif'', ''.bmp'', ''.pdf'', ''.exe'', ''.dll'', ''.so'',
      ''.zip'', ''.tar'', ''.gz'', ''.7z'', ''.rar'', ''.mp3'', ''.mp4'', ''.avi'', ''.mov'',
      ''.wmv'', ''.flv'', ''.mkv'', ''.iso'', ''.jar'', ''.war'', ''.ear'', ''.class'', ''.o'',
      ''.obj'', ''.pyc'', ''.pyo'', ''.apk'', ''.dmg'', ''.pkg'', ''.app'', ''.deb'', ''.rpm'',
      ''.psd'', ''.ai'', ''.eps'', ''.ps'', ''.ttf'', ''.woff'', ''.woff2'', ''.eot'', ''.otf'',
      ''.ico'', ''.icns'', ''.swf'', ''.fla'', ''.cab'', ''.sys'', ''.msi'', ''.msp'', ''.msm'',
      ''.crx'', ''.xpi'', ''.vsix'', ''.doc'', ''.docx'', ''.xls'', ''.xlsx'', ''.ppt'',
      ''.pptx'', ''.odt'', ''.ods'', ''.odp'', ''.odg'', ''.odb'', ''.odf'', ''.rtf'']"

definition language_extensions :: "(string \<times> string) list" where
  "language_extensions =
     [(''.py'', ''Python''), (''.js'', ''JavaScript''), (''.java'', ''Java''), (''.cpp'', ''C++''),
      (''.c'', ''C''), (''.cs'', ''C#''), (''.php'', ''PHP''), (''.rb'', ''Ruby''), (''.go'', ''Go''),
      (''.swift'', ''Swift''), (''.ts'', ''TypeScript''), (''.kt'', ''Kotlin''), (''.rs'', ''Rust''),
      (''.dart'', ''Dart'')]"

text \<open>The part of the constructor's \<open>config\<close> that the scan reads.\<close>

record config =
  root_dir :: string
  avoid_folders :: "string list"
  avoid_files :: "string list"
  include_extensions :: "string list"
  key_files :: "string list"

text \<open>The configuration that \<open>WorkTwinsDataSource.generate_json_report\<close> passes.\<close>

definition default_config :: "string \<Rightarrow> config" where
  "default_config project_path =
     \<lparr>root_dir = project_path, avoid_folders = COMMON_AVOID_FOLDERS,
      avoid_files = COMMON_AVOID_FILES, include_extensions = INCLUDE_EXTENSIONS,
      key_files = KEY_FILES\<rparr>"

text \<open>
  \<open>os.path.splitext(p)[1]\<close> (POSIX): the extension starts at the last dot of the last
  path component, unless only dots precede it there.
\<close>

definition splitext_ext :: "string \<Rightarrow> string" where
  "splitext_ext p =
     (let base_rev = takeWhile (\<lambda>c. c \<noteq> CHR ''/'') (rev p)
      in case dropWhile (\<lambda>c. c \<noteq> CHR ''.'') base_rev of
           [] \<Rightarrow> []
         | dot # before_rev \<Rightarrow>
             if \<exists>c \<in> set before_rev. c \<noteq> CHR ''.''
             then CHR ''.'' # rev (takeWhile (\<lambda>c. c \<noteq> CHR ''.'') base_rev)
             else [])"

text \<open>\<open>os.path.join(a, b)\<close> and \<open>os.path.basename(p)\<close> (POSIX).\<close>

definition path_join :: "string \<Rightarrow> string \<Rightarrow> string" where
  "path_join a b =
     (if prefix ''/'' b then b
      else if a = [] \<or> endswith a ''/'' then a @ b
      else a @ ''/'' @ b)"

definition basename :: "string \<Rightarrow> string" where
  "basename p = rev (takeWhile (\<lambda>c. c \<noteq> CHR ''/'') (rev p))"

text \<open>\<open>str.splitlines()\<close> on code points below 256.\<close>

definition is_linebreak :: "char \<Rightarrow> bool" where
  "is_linebreak c = (c \<in> set [CHR 0x0A, CHR 0x0B, CHR 0x0C, CHR 0x0D, CHR 0x1C, CHR 0x1D,
                                CHR 0x1E, CHR 0x85])"

fun splitlines_from :: "string \<Rightarrow> string \<Rightarrow> string list" where
  "splitlines_from cur [] = (if cur = [] then [] else [rev cur])"
| "splitlines_from cur (c # cs) =
     (if c = CHR 0x0D then
        (case cs of
           c' # cs' \<Rightarrow> if c' = CHR 0x0A then rev cur # splitlines_from [] cs'
                       else rev cur # splitlines_from [] cs
         | [] \<Rightarrow> rev cur # splitlines_from [] cs)
      else if is_linebreak c then rev cur # splitlines_from [] cs
      else splitlines_from (c # cur) cs)"

definition splitlines :: "string \<Rightarrow> string list" where
  "splitlines s = splitlines_from [] s"

text \<open>
  The outcome of the file classification that the loop body makes inline, with the
  labels of the specification. The exclusion list is checked first, then the binary
  extensions, then \<open>extension in include_extensions or file in key_files\<close>, whose two
  disjuncts the code treats alike.
\<close>

datatype classification = Skip | IncludeSource | IncludeKeyFile

definition classify :: "config \<Rightarrow> string \<Rightarrow> classification" where
  "classify cfg file =
     (if file \<in> set (avoid_files cfg) then Skip
      else
        let extension = py_lower (splitext_ext file) in
        if extension \<in> set BINARY_EXTENSIONS then Skip
        else if extension \<in> set (include_extensions cfg) then IncludeSource
        else if file \<in> set (key_files cfg) then IncludeKeyFile
        else Skip)"

text \<open>\<open>self.imports[imp] += 1\<close> on the \<open>defaultdict(int)\<close>.\<close>

definition count_import :: "string \<Rightarrow> (string \<times> int) list \<Rightarrow> (string \<times> int) list" where
  "count_import imp imports = od_set id imports imp (dd_get id 0 imports imp + 1)"

definition extract_imports :: "string \<Rightarrow> string \<Rightarrow> (string \<times> int) list \<Rightarrow> (string \<times> int) list" where
  "extract_imports content extension imports =
     (if extension = ''.py'' then
        fold (\<lambda>g. count_import (match_group g 1)) (findall py_import_re content) imports
      else if extension \<in> set [''.js'', ''.jsx'', ''.ts'', ''.tsx''] then
        fold (\<lambda>g imps.
                let imp = (if match_group g 1 \<noteq> [] then match_group g 1 else match_group g 2)
                in if imp \<noteq> [] then count_import imp imps else imps)
             (findall js_import_re content) imports
      else if extension = ''.java'' then
        fold (\<lambda>g. count_import (match_group g 1)) (findall java_import_re content) imports
      else imports)"

definition detect_programming_language :: "string \<Rightarrow> string option" where
  "detect_programming_language filename = map_of language_extensions (splitext_ext filename)"

text \<open>
  What the file system gives for one file: \<open>Unreadable\<close> when opening, decoding as UTF-8
  or \<open>os.stat\<close> raises (the \<open>except\<close> clauses then skip the file), otherwise the decoded
  text, the size and the formatted modification time.
\<close>

datatype file_io = Unreadable | Readable string nat string

text \<open>
  A directory as \<open>os.walk\<close> lists it: its files and its subdirectories, each in listing
  order.
\<close>

datatype dir_tree = Dir "(string \<times> file_io) list" "(string \<times> dir_tree) list"

record source_file =
  File :: string
  Full_Path :: string
  Relative_Path :: string
  Size :: nat
  Last_Modified :: string
  Lines :: nat
  Source_Code :: string

record scan_state =
  project_sources :: "source_file list"
  self_imports :: "(string \<times> int) list"
  detected_language :: "string option"

definition scan_init :: scan_state where
  "scan_init = \<lparr>project_sources = [], self_imports = [], detected_language = None\<rparr>"

text \<open>
  The body of \<open>for file in files\<close> for one file of the directory \<open>dirpath\<close> (whose path
  relative to the project root is \<open>rel\<close>).
\<close>

definition process_file :: "config \<Rightarrow> string \<Rightarrow> string \<Rightarrow> string \<Rightarrow> file_io \<Rightarrow> scan_state \<Rightarrow> scan_state" where
  "process_file cfg dirpath rel file io st =
     (if classify cfg file = Skip then st
      else
        (case io of
           Unreadable \<Rightarrow> st
         | Readable content st_size mtime \<Rightarrow>
             st\<lparr>project_sources := project_sources st @
                   [\<lparr>File = file, Full_Path = path_join dirpath file,
                     Relative_Path = path_join rel file, Size = st_size,
                     Last_Modified = mtime, Lines = length (splitlines content),
                     Source_Code = content\<rparr>],
                self_imports := extract_imports content (py_lower (splitext_ext file)) (self_imports st),
                detected_language :=
                  (case detected_language st of
                     None \<Rightarrow> detect_programming_language file
                   | Some l \<Rightarrow> if l = [] then detect_programming_language file else Some l)\<rparr>))"

text \<open>
  \<open>for root, dirs, files in os.walk(self.root_dir)\<close>, top-down: the files of a
  directory (the loop's \<open>root\<close>, here \<open>dirpath\<close>), then its subdirectories in turn, those
  named in \<open>avoid_folders\<close> pruned.
\<close>

fun walk :: "config \<Rightarrow> string \<Rightarrow> string \<Rightarrow> dir_tree \<Rightarrow> scan_state \<Rightarrow> scan_state"
  and walk_dirs :: "config \<Rightarrow> string \<Rightarrow> string \<Rightarrow> (string \<times> dir_tree) list \<Rightarrow> scan_state \<Rightarrow> scan_state" where
  "walk cfg dirpath rel (Dir files dirs) st =
     walk_dirs cfg dirpath rel dirs (fold (\<lambda>(file, io). process_file cfg dirpath rel file io) files st)"
| "walk_dirs cfg dirpath rel [] st = st"
| "walk_dirs cfg dirpath rel ((d, t) # ds) st =
     walk_dirs cfg dirpath rel ds
       (if d \<in> set (avoid_folders cfg) then st
        else walk cfg (path_join dirpath d) (path_join rel d) t st)"

definition scan :: "config \<Rightarrow> dir_tree \<Rightarrow> scan_state" where
  "scan cfg tree = walk cfg (root_dir cfg) [] tree scan_init"

definition source_data :: "source_file \<Rightarrow> json" where
  "source_data f =
     JObj [(''file'', JObj [(''File'', JStr (File f)), (''Full Path'', JStr (Full_Path f)),
                            (''Relative Path'', JStr (Relative_Path f)),
                            (''Size'', JInt (int (Size f))),
                            (''Last Modified'', JStr (Last_Modified f)),
                            (''Lines'', JInt (int (Lines f))),
                            (''Source_Code'', JStr (Source_Code f))])]"

definition no_imports_observation :: string where
  "no_imports_observation = ''No external libraries or imports were detected in the source code.''"

text \<open>
  \<open>generate_context_data\<close>: the \<open>project_data\<close> dict, which \<open>generate_context_file\<close>
  dumps as the snapshot file, with its keys in insertion order.
\<close>

definition generate_context_data :: "config \<Rightarrow> dir_tree \<Rightarrow> json" where
  "generate_context_data cfg tree =
     (let st = scan cfg tree in
      JObj [(''project_name'', JStr (basename (root_dir cfg))),
            (''project_sources'', JArr (map source_data (project_sources st))),
            (''external_libraries'',
               JArr (map (\<lambda>(imp, count). JObj [(''import_name'', JStr imp), (''count'', JInt count)])
                         (self_imports st))),
            (''observations'', JArr (if self_imports st = [] then [JStr no_imports_observation] else [])),
            (''programming_language'',
               JStr (case detected_language st of
                       None \<Rightarrow> ''unknown''
                     | Some l \<Rightarrow> if l = [] then ''unknown'' else l)),
            (''file_count'', JInt (int (length (project_sources st))))])"

text \<open>
  The order in which \<open>os.walk\<close> hands the files of a project to the loop body, read
  off the directory tree: the files of a directory in listing order, then each
  subdirectory that is not pruned, in listing order, with all that is below it. An
  entry is the directory path, the path relative to the project root, the file name and
  what reading the file gives. An entry is read when its file is admitted by the
  classification and can be read.
\<close>

fun walk_entries :: "config \<Rightarrow> string \<Rightarrow> string \<Rightarrow> dir_tree \<Rightarrow> (string \<times> string \<times> string \<times> file_io) list"
  and walk_dirs_entries :: "config \<Rightarrow> string \<Rightarrow> string \<Rightarrow> (string \<times> dir_tree) list \<Rightarrow> (string \<times> string \<times> string \<times> file_io) list" where
  "walk_entries cfg dirpath rel (Dir files dirs) =
     map (\<lambda>(fname, io). (dirpath, rel, fname, io)) files @ walk_dirs_entries cfg dirpath rel dirs"
| "walk_dirs_entries cfg dirpath rel [] = []"
| "walk_dirs_entries cfg dirpath rel ((d, t) # ds) =
     (if d \<in> set (avoid_folders cfg) then []
      else walk_entries cfg (path_join dirpath d) (path_join rel d) t)
     @ walk_dirs_entries cfg dirpath rel ds"

definition walk_order :: "config \<Rightarrow> dir_tree \<Rightarrow> (string \<times> string \<times> string \<times> file_io) list" where
  "walk_order cfg tree = walk_entries cfg (root_dir cfg) [] tree"

definition entry_name :: "string \<times> string \<times> string \<times> file_io \<Rightarrow> string" where
  "entry_name e = fst (snd (snd e))"

definition entry_read :: "config \<Rightarrow> string \<times> string \<times> string \<times> file_io \<Rightarrow> bool" where
  "entry_read cfg e = (classify cfg (entry_name e) \<noteq> Skip \<and> snd (snd (snd e)) \<noteq> Unreadable)"

definition process_entry :: "config \<Rightarrow> string \<times> string \<times> string \<times> file_io \<Rightarrow> scan_state \<Rightarrow> scan_state" where
  "process_entry cfg e st = process_file cfg (fst e) (fst (snd e)) (entry_name e) (snd (snd (snd e))) st"

text \<open>Reading a snapshot back: a field of the object, and the names of its source files.\<close>

definition json_field :: "json \<Rightarrow> string \<Rightarrow> json" where
  "json_field v k = (case v of JObj d \<Rightarrow> dict_get d k JNull | _ \<Rightarrow> JNull)"

definition snapshot_file_names :: "json \<Rightarrow> string list" where
  "snapshot_file_names project_data =
     (case json_field project_data ''project_sources'' of
        JArr xs \<Rightarrow> map (\<lambda>e. case json_field (json_field e ''file'') ''File'' of JStr n \<Rightarrow> n | _ \<Rightarrow> []) xs
      | _ \<Rightarrow> [])"

text \<open>
  First match: the language of the scan state is the one detected for the first admitted
  file, in the order of \<open>project_sources\<close>, for which detection gives a language.
\<close>

definition first_match_inv :: "scan_state \<Rightarrow> bool" where
  "first_match_inv st =
     (detected_language st =
        Option.bind (List.find (\<lambda>fname. detect_programming_language fname \<noteq> None)
                               (map File (project_sources st)))
                    detect_programming_language)"

section \<open>The line rule for Python imports\<close>

text \<open>
  The rule of the specification for one line of Python: after optional indentation the
  line starts with \<open>import\<close> or \<open>from\<close>, then whitespace, then the name \<open>X\<close>, which
  runs up to the first whitespace or comma. \<open>spec_line_import\<close> gives the \<open>X\<close> of a line
  when there is one.
\<close>

definition is_token_char :: "char \<Rightarrow> bool" where
  "is_token_char c = (\<not> is_space c \<and> c \<noteq> CHR '','')"

definition after_keyword :: "string \<Rightarrow> string option" where
  "after_keyword r =
     (if prefix ''import'' r then Some (drop 6 r)
      else if prefix ''from'' r then Some (drop 4 r) else None)"

definition spec_line_import :: "string \<Rightarrow> string option" where
  "spec_line_import l =
     (case after_keyword (dropWhile is_space l) of
        None \<Rightarrow> None
      | Some a \<Rightarrow>
          (case a of
             [] \<Rightarrow> None
           | c # cs \<Rightarrow>
               if is_space c then
                 (let x = takeWhile is_token_char (dropWhile is_space cs)
                  in if x = [] then None else Some x)
               else None))"

text \<open>
  A line on which nothing but whitespace follows the keyword, and a text as the lines
  it is made of: each of \<open>ls\<close> ended by a newline, then \<open>last_line\<close> (empty when the
  text ends with a newline).
\<close>

definition keyword_ends_line :: "string \<Rightarrow> bool" where
  "keyword_ends_line l =
     (case after_keyword (dropWhile is_space l) of
        None \<Rightarrow> False
      | Some a \<Rightarrow> \<forall>c \<in> set a. is_space c)"

definition join_lines :: "string list \<Rightarrow> string \<Rightarrow> string" where
  "join_lines ls last_line = concat (map (\<lambda>l. l @ [CHR 0x0A]) ls) @ last_line"

text \<open>
  The match of \<open>py_import_re\<close> at the start of a line as a function of the text: the
  name it captures and the rest after it. \<open>skip_run\<close> is the position after the longest
  run of a class; \<open>next_line\<close> is the scan from the line after the current one.
\<close>

definition py_match :: "string \<Rightarrow> (string \<times> string) option" where
  "py_match s =
     (case after_keyword (dropWhile is_space s) of
        None \<Rightarrow> None
      | Some a \<Rightarrow>
          (case a of
             [] \<Rightarrow> None
           | c # cs \<Rightarrow>
               if is_space c then
                 (let s3 = dropWhile is_space cs; x = takeWhile is_token_char s3
                  in if x = [] then None else Some (x, dropWhile is_token_char s3))
               else None))"

definition skip_run :: "(char \<Rightarrow> bool) \<Rightarrow> bool \<Rightarrow> string \<Rightarrow> mpos" where
  "skip_run P b s = (if takeWhile P s = [] then b else last (takeWhile P s) = CHR 0x0A, dropWhile P s)"

definition line_end :: "string \<Rightarrow> bool" where
  "line_end e = (e = [] \<or> hd e = CHR 0x0A)"

definition next_line :: "string \<Rightarrow> caps list" where
  "next_line e = (case e of [] \<Rightarrow> [] | c # rest \<Rightarrow> findall_from py_import_re (True, rest))"

section \<open>WorkTwinsDataSource.aggregate_snapshots\<close>

text \<open>
  The two accumulators of the function. \<open>imports_agg\<close> is a \<open>defaultdict\<close> of
  \<open>defaultdict(int)\<close> whose iteration order is observed, so both levels are ordered.
  \<open>file_counts\<close> is a \<open>defaultdict(int)\<close> that is only ever read by key: a total function
  with value 0 at keys never written.
\<close>

record agg_state =
  imports_agg :: "(string \<times> (json \<times> int) list) list"
  file_counts :: "string \<Rightarrow> int"

definition agg_init :: agg_state where
  "agg_init = \<lparr>imports_agg = [], file_counts = (\<lambda>_. 0)\<rparr>"

text \<open>
  \<open>imports_agg[programming_language][import_name] += count\<close>. The statement first
  evaluates \<open>imports_agg[programming_language]\<close> (inserting an empty inner dict for a new
  language), then reads the inner dict at \<open>import_name\<close> (a \<open>TypeError\<close> for an
  unhashable key, otherwise inserting 0 for a new key), then adds (a \<open>TypeError\<close> for a
  count that is no number) and stores. The result is the updated outer dict, tagged
  \<open>Inl\<close> when the statement raised.
\<close>

definition add_import ::
  "(string \<times> (json \<times> int) list) list \<Rightarrow> string \<Rightarrow> json \<Rightarrow> json \<Rightarrow>
   (string \<times> (json \<times> int) list) list + (string \<times> (json \<times> int) list) list" where
  "add_import agg lang import_name count =
     (let agg1 = dd_touch id [] agg lang;
          inner = dd_get id [] agg1 lang
      in if \<not> hashable import_name then Inl agg1
         else
           let inner1 = dd_touch key_norm 0 inner import_name;
               old = dd_get key_norm 0 inner1 import_name
           in case as_int count of
                None \<Rightarrow> Inl (od_set id agg1 lang inner1)
              | Some n \<Rightarrow> Inr (od_set id agg1 lang (od_set key_norm inner1 import_name (old + n))))"

text \<open>
  The loop \<open>for lib in external_libraries\<close> over a list. An entry that is not a dict
  with both keys is only logged. An exception leaves the loop (and the snapshot) with
  what was accumulated so far.
\<close>

fun add_libraries ::
  "string \<Rightarrow> json list \<Rightarrow> (string \<times> (json \<times> int) list) list \<Rightarrow> (string \<times> (json \<times> int) list) list" where
  "add_libraries lang [] agg = agg"
| "add_libraries lang (lib # libs) agg =
     (case lib of
        JObj d \<Rightarrow>
          if has_key d ''import_name'' \<and> has_key d ''count'' then
            (case add_import agg lang (dict_get d ''import_name'' JNull) (dict_get d ''count'' JNull) of
               Inl agg' \<Rightarrow> agg'
             | Inr agg' \<Rightarrow> add_libraries lang libs agg')
          else add_libraries lang libs agg
      | _ \<Rightarrow> add_libraries lang libs agg)"

text \<open>
  The body of the \<open>try\<close> for one loaded snapshot. The three assertions come first; an
  \<open>AssertionError\<close>, like every other exception, is caught and logged, and the loop goes
  on with the next file. A loaded value that is not a dict either fails an assertion or
  raises at \<open>.get\<close>. \<open>.lower()\<close> exists on strings only. Iterating
  \<open>external_libraries\<close> when it is a dict or a string yields strings (logged as invalid
  entries), and raises when it is a number, a bool or \<open>None\<close>: in each of these cases
  only the file count has been added.
\<close>

definition process_snapshot :: "json \<Rightarrow> agg_state \<Rightarrow> agg_state" where
  "process_snapshot project_data st =
     (case project_data of
        JObj d \<Rightarrow>
          if \<not> has_key d ''programming_language'' then st
          else if \<not> has_key d ''file_count'' then st
          else if \<not> has_key d ''external_libraries'' then st
          else
            (case dict_get d ''programming_language'' (JStr []) of
               JStr s \<Rightarrow>
                 let programming_language = py_lower s in
                 if programming_language \<noteq> [] then
                   (case as_int (dict_get d ''file_count'' (JInt 0)) of
                      None \<Rightarrow> st
                    | Some file_count \<Rightarrow>
                        let st1 = st\<lparr>file_counts := (file_counts st)
                                     (programming_language := file_counts st programming_language + file_count)\<rparr>
                        in (case dict_get d ''external_libraries'' (JArr []) of
                              JArr libs \<Rightarrow>
                                st1\<lparr>imports_agg := add_libraries programming_language libs (imports_agg st1)\<rparr>
                            | _ \<Rightarrow> st1))
                 else st
             | _ \<Rightarrow> st)
      | _ \<Rightarrow> st)"

text \<open>
  One entry of \<open>os.listdir(temp_snapshots_dir)\<close>: the file name and what opening and
  \<open>json.load\<close> give (\<open>None\<close> when either raises, which is caught and logged).
\<close>

type_synonym snapshot_store = "(string \<times> json option) list"

definition is_snapshot_file :: "string \<Rightarrow> bool" where
  "is_snapshot_file file = (str_contains ''_snapshot_'' file \<and> endswith file ''.json'')"

definition aggregate_step :: "string \<times> json option \<Rightarrow> agg_state \<Rightarrow> agg_state" where
  "aggregate_step entry st =
     (if is_snapshot_file (fst entry) then
        (case snd entry of None \<Rightarrow> st | Some project_data \<Rightarrow> process_snapshot project_data st)
      else st)"

record library_used =
  library_name :: json
  times_imported :: int

record language_summary =
  programming_language :: string
  libraries_used :: "library_used list"
  file_count :: int

definition libs_list :: "(json \<times> int) list \<Rightarrow> library_used list" where
  "libs_list libs =
     map (\<lambda>(lib, count). \<lparr>library_name = lib, times_imported = count\<rparr>) (sorted_desc snd libs)"

definition overall_data :: "agg_state \<Rightarrow> language_summary list" where
  "overall_data st =
     map (\<lambda>(lang, libs). \<lparr>programming_language = lang, libraries_used = libs_list libs,
                           file_count = file_counts st lang\<rparr>) (imports_agg st)"

definition aggregate_snapshots :: "snapshot_store \<Rightarrow> language_summary list" where
  "aggregate_snapshots store = sorted_desc file_count (overall_data (fold aggregate_step store agg_init))"

text \<open>A snapshot as \<open>generate_context_data\<close> shapes it, for concrete stores.\<close>

definition valid_snapshot :: "string \<Rightarrow> int \<Rightarrow> (string \<times> int) list \<Rightarrow> json" where
  "valid_snapshot lang n libs =
     JObj [(''project_name'', JStr ''p''), (''project_sources'', JArr []),
           (''external_libraries'',
              JArr (map (\<lambda>(name, c). JObj [(''import_name'', JStr name), (''count'', JInt c)]) libs)),
           (''observations'', JArr []),
           (''programming_language'', JStr lang), (''file_count'', JInt n)]"

text \<open>
  What a directory entry adds to \<open>file_counts\<close>: the lower-cased language and the file
  count of a snapshot that passes the assertions, has a non-empty language and a
  numeric file count.
\<close>

definition snapshot_contribution :: "string \<times> json option \<Rightarrow> (string \<times> int) option" where
  "snapshot_contribution entry =
     (if is_snapshot_file (fst entry) then
        (case snd entry of
           Some (JObj d) \<Rightarrow>
             if has_key d ''programming_language'' \<and> has_key d ''file_count''
                \<and> has_key d ''external_libraries'' then
               (case dict_get d ''programming_language'' (JStr []) of
                  JStr s \<Rightarrow>
                    if py_lower s \<noteq> [] then
                      map_option (Pair (py_lower s)) (as_int (dict_get d ''file_count'' (JInt 0)))
                    else None
                | _ \<Rightarrow> None)
             else None
         | _ \<Rightarrow> None)
      else None)"

section \<open>WorkTwinsDataSource.generate_json_report: progress\<close>

text \<open>
  \<open>progress_value = int((self.scanned_projects / self.total_projects) * 100)\<close>. The
  quotient of the two ints and its product with 100 are floats: each is the exact
  result rounded to the nearest number with a significand of 53 bits, a tie going to
  the even significand (IEEE 754 binary64, round to nearest even). \<open>binade x\<close> is the
  exponent of \<open>x\<close>, \<open>double_round\<close> the rounding. The exponent is not bounded in the
  model: the quotient of two project counts and its product with 100 lie far inside the
  range of the format. \<open>int()\<close> truncates towards zero.
\<close>

definition py_int :: "real \<Rightarrow> int" where
  "py_int x = (if 0 \<le> x then \<lfloor>x\<rfloor> else \<lceil>x\<rceil>)"

definition round_half_even :: "real \<Rightarrow> int" where
  "round_half_even z =
     (let f = \<lfloor>z\<rfloor>; r = z - of_int f
      in if r < 1 / 2 then f else if 1 / 2 < r then f + 1 else if even f then f else f + 1)"

definition binade :: "real \<Rightarrow> int" where
  "binade x = \<lfloor>log 2 x\<rfloor>"

definition double_round :: "real \<Rightarrow> real" where
  "double_round x =
     (if x = 0 then 0
      else sgn x * of_int (round_half_even (\<bar>x\<bar> * power_int 2 (52 - binade \<bar>x\<bar>)))
             * power_int 2 (binade \<bar>x\<bar> - 52))"

definition progress_value :: "nat \<Rightarrow> nat \<Rightarrow> int" where
  "progress_value scanned_n total_n =
     py_int (double_round (double_round (real scanned_n / real total_n) * 100))"

text \<open>
  The fields of a data source that the loop reads. \<open>progress_callback\<close> tells whether
  a callback was given. \<open>snapshot_options\<close> tells whether the constructor of the
  subclass set \<open>compress\<close>, \<open>amount_of_chunks\<close> and \<open>size_of_chunk\<close>:
  \<open>GitHubDataSource\<close> and \<open>LocalFoldersDataSource\<close> do, \<open>GitLabDataSource\<close> does not.
  \<open>new_data_source\<close> is the object after construction.
\<close>

datatype py_exception = AttributeError

record data_source =
  source_code_dir :: string
  progress_callback :: bool
  snapshot_options :: bool
  projects :: "string list"
  total_projects :: nat
  scanned_projects :: nat

definition new_data_source :: "string \<Rightarrow> bool \<Rightarrow> bool \<Rightarrow> data_source" where
  "new_data_source dir callback options =
     \<lparr>source_code_dir = dir, progress_callback = callback, snapshot_options = options,
      projects = [], total_projects = 0, scanned_projects = 0\<rparr>"

text \<open>
  \<open>scan_projects\<close>: the top-level directories of \<open>source_code_dir\<close> are appended to
  \<open>self.projects\<close> (the list is not reset); when the list is still empty the directory
  itself is the one project. \<open>total_projects\<close> is the length of the list.
\<close>

definition scan_projects :: "string list \<Rightarrow> data_source \<Rightarrow> data_source" where
  "scan_projects top_dirs ds =
     (let found = projects ds @ map (path_join (source_code_dir ds)) top_dirs;
          ps = (if found = [] then [source_code_dir ds] else found)
      in ds\<lparr>projects := ps, total_projects := length ps\<rparr>)"

text \<open>
  The loop \<open>for project_path in self.projects\<close>. The \<open>config\<close> dict is built before
  the \<open>try\<close> and reads \<open>self.compress\<close>, \<open>self.amount_of_chunks\<close> and
  \<open>self.size_of_chunk\<close>: without them an \<open>AttributeError\<close> leaves the function. The
  snapshot generation is inside the \<open>try\<close>: for a project in \<open>failing\<close> it raises, which
  is caught and logged, otherwise the snapshot is written. In both cases the counter is
  incremented and, when a callback is set and \<open>total_projects > 0\<close>, the callback is
  called with the progress value. The state is the object, the values the callback has
  received and the projects whose snapshot was written.
\<close>

fun report_loop ::
  "string list \<Rightarrow> string list \<Rightarrow> data_source \<times> int list \<times> string list \<Rightarrow>
   py_exception + (data_source \<times> int list \<times> string list)" where
  "report_loop failing [] s = Inr s"
| "report_loop failing (project_path # rest) (ds, calls, written) =
     (if \<not> snapshot_options ds then Inl AttributeError
      else
        let written1 = (if project_path \<in> set failing then written else written @ [project_path]);
            ds1 = ds\<lparr>scanned_projects := scanned_projects ds + 1\<rparr>;
            calls1 = (if progress_callback ds1 \<and> 0 < total_projects ds1
                      then calls @ [progress_value (scanned_projects ds1) (total_projects ds1)]
                      else calls)
        in report_loop failing rest (ds1, calls1, written1))"

text \<open>
  \<open>generate_json_report\<close> up to the end of the loop (the aggregation and the writing of
  the report follow), and the values the callback received when the function got that
  far.
\<close>

definition generate_json_report ::
  "string list \<Rightarrow> string list \<Rightarrow> data_source \<Rightarrow> py_exception + (data_source \<times> int list \<times> string list)" where
  "generate_json_report failing top_dirs ds =
     (let ds1 = scan_projects top_dirs ds in report_loop failing (projects ds1) (ds1, [], []))"



section \<open>Snapshots that the aggregation skips\<close>

lemma fold_aggregate_skip:
  assumes "\<And>st. aggregate_step e st = st"
  shows "fold aggregate_step (xs @ e # ys) s = fold aggregate_step (xs @ ys) s"
  using assms by simp

lemma process_snapshot_missing_field:
  assumes "\<not> has_key d ''programming_language'' \<or> \<not> has_key d ''file_count''
           \<or> \<not> has_key d ''external_libraries''"
  shows "process_snapshot (JObj d) st = st"
  using assms by (auto simp: process_snapshot_def)

lemma process_snapshot_empty_language:
  assumes "map_of d ''programming_language'' = Some (JStr [])"
  shows "process_snapshot (JObj d) st = st"
  using assms by (simp add: process_snapshot_def dict_get_def py_lower_def)

text \<open>
  Claim C2. A snapshot file that loads as a JSON object but lacks \<open>file_count\<close>,
  \<open>programming_language\<close> or \<open>external_libraries\<close> changes neither accumulator, and the
  aggregation goes on: the report over a store holding such a file, anywhere in the
  listing, is the report over the store without it.
\<close>

theorem malformed_snapshot_excluded:
  assumes "\<not> has_key d ''file_count'' \<or> \<not> has_key d ''programming_language''
           \<or> \<not> has_key d ''external_libraries''"
  shows "process_snapshot (JObj d) st = st
         \<and> aggregate_snapshots (xs @ (name, Some (JObj d)) # ys) = aggregate_snapshots (xs @ ys)"
proof -
  have skip: "process_snapshot (JObj d) s = s" for s
    using assms by (intro process_snapshot_missing_field) blast
  then have "aggregate_step (name, Some (JObj d)) s = s" for s
    by (simp add: aggregate_step_def)
  then have "fold aggregate_step (xs @ (name, Some (JObj d)) # ys) agg_init
             = fold aggregate_step (xs @ ys) agg_init"
    by (rule fold_aggregate_skip)
  with skip show ?thesis
    by (simp add: aggregate_snapshots_def)
qed

theorem malformed_snapshot_excluded_witness:
  "aggregate_snapshots
     [(''a_snapshot_202401010000.json'', Some (valid_snapshot ''Python'' 2 [(''os'', 2)])),
      (''b_snapshot_202401010000.json'',
         Some (JObj [(''project_name'', JStr ''b''), (''programming_language'', JStr ''Python''),
                     (''external_libraries'', JArr [JObj [(''import_name'', JStr ''os''), (''count'', JInt 7)]])])),
      (''c_snapshot_202401010000.json'', Some (valid_snapshot ''Python'' 1 [(''os'', 3), (''sys'', 1)]))]
   = [\<lparr>programming_language = ''python'',
        libraries_used = [\<lparr>library_name = JStr ''os'', times_imported = 5\<rparr>,
                          \<lparr>library_name = JStr ''sys'', times_imported = 1\<rparr>],
        file_count = 3\<rparr>]"
proof -
  have "aggregate_snapshots
     [(''a_snapshot_202401010000.json'', Some (valid_snapshot ''Python'' 2 [(''os'', 2)])),
      (''c_snapshot_202401010000.json'', Some (valid_snapshot ''Python'' 1 [(''os'', 3), (''sys'', 1)]))]
   = [\<lparr>programming_language = ''python'',
        libraries_used = [\<lparr>library_name = JStr ''os'', times_imported = 5\<rparr>,
                          \<lparr>library_name = JStr ''sys'', times_imported = 1\<rparr>],
        file_count = 3\<rparr>]"
    by code_simp
  then show ?thesis
    using malformed_snapshot_excluded
      [of "[(''project_name'', JStr ''b''), (''programming_language'', JStr ''Python''),
            (''external_libraries'', JArr [JObj [(''import_name'', JStr ''os''), (''count'', JInt 7)]])]"
          agg_init
          "[(''a_snapshot_202401010000.json'', Some (valid_snapshot ''Python'' 2 [(''os'', 2)]))]"
          "''b_snapshot_202401010000.json''"
          "[(''c_snapshot_202401010000.json'', Some (valid_snapshot ''Python'' 1 [(''os'', 3), (''sys'', 1)]))]"]
    by (simp add: has_key_def)
qed

text \<open>
  Claim C10. A snapshot whose \<open>programming_language\<close> is the empty string (with
  \<open>file_count\<close> and \<open>external_libraries\<close> present) is ignored: the report over a store
  holding it equals the report over the store without it.
\<close>

theorem empty_language_ignored:
  assumes "map_of d ''programming_language'' = Some (JStr [])"
    and "has_key d ''file_count''" and "has_key d ''external_libraries''"
  shows "aggregate_snapshots (xs @ (name, Some (JObj d)) # ys) = aggregate_snapshots (xs @ ys)"
proof -
  have "aggregate_step (name, Some (JObj d)) s = s" for s
    using assms(1) by (simp add: aggregate_step_def process_snapshot_empty_language)
  then have "fold aggregate_step (xs @ (name, Some (JObj d)) # ys) agg_init
             = fold aggregate_step (xs @ ys) agg_init"
    by (rule fold_aggregate_skip)
  then show ?thesis
    by (simp add: aggregate_snapshots_def)
qed

theorem empty_language_ignored_witness:
  "aggregate_snapshots
     [(''a_snapshot_202401010000.json'', Some (valid_snapshot ''Java'' 4 [(''java.util.List'', 2)])),
      (''b_snapshot_202401010000.json'', Some (valid_snapshot [] 9 [(''os'', 7)]))]
   = [\<lparr>programming_language = ''java'',
        libraries_used = [\<lparr>library_name = JStr ''java.util.List'', times_imported = 2\<rparr>],
        file_count = 4\<rparr>]"
proof -
  have "aggregate_snapshots
     [(''a_snapshot_202401010000.json'', Some (valid_snapshot ''Java'' 4 [(''java.util.List'', 2)]))]
   = [\<lparr>programming_language = ''java'',
        libraries_used = [\<lparr>library_name = JStr ''java.util.List'', times_imported = 2\<rparr>],
        file_count = 4\<rparr>]"
    by code_simp
  then show ?thesis
    using empty_language_ignored
      [of "[(''project_name'', JStr ''p''), (''project_sources'', JArr []),
            (''external_libraries'', JArr [JObj [(''import_name'', JStr ''os''), (''count'', JInt 7)]]),
            (''observations'', JArr []),
            (''programming_language'', JStr []), (''file_count'', JInt 9)]"
          "[(''a_snapshot_202401010000.json'', Some (valid_snapshot ''Java'' 4 [(''java.util.List'', 2)]))]"
          "''b_snapshot_202401010000.json''" "[]"]
    by (simp add: has_key_def valid_snapshot_def)
qed

section \<open>Invariants of the project scan\<close>

lemma fold_process_invariant:
  assumes step: "\<forall>dirpath rel fname io st. I st \<longrightarrow> I (process_file cfg dirpath rel fname io st)"
  shows "I st \<Longrightarrow> I (fold (\<lambda>(fname, io). process_file cfg dirpath rel fname io) files st)"
proof (induction files arbitrary: st)
  case Nil
  then show ?case by simp
next
  case (Cons a files)
  obtain fname io where a: "a = (fname, io)" by (cases a)
  from Cons.prems step have "I (process_file cfg dirpath rel fname io st)" by blast
  then have "I (fold (\<lambda>(fname, io). process_file cfg dirpath rel fname io) files (process_file cfg dirpath rel fname io st))"
    by (rule Cons.IH)
  then show ?case by (simp add: a)
qed

lemma walk_invariant:
  shows "\<forall>dirpath rel fname io st. I st \<longrightarrow> I (process_file cfg dirpath rel fname io st) \<Longrightarrow> I st
         \<Longrightarrow> I (walk cfg dirpath rel t st)"
    and "\<forall>dirpath rel fname io st. I st \<longrightarrow> I (process_file cfg dirpath rel fname io st) \<Longrightarrow> I st
         \<Longrightarrow> I (walk_dirs cfg dirpath rel ds st)"
proof (induction cfg dirpath rel t st and cfg dirpath rel ds st rule: walk_walk_dirs.induct)
  case (1 cfg dirpath rel files dirs st)
  have "I (fold (\<lambda>(fname, io). process_file cfg dirpath rel fname io) files st)"
    using "1.prems"(1) "1.prems"(2) by (rule fold_process_invariant)
  with "1.IH" "1.prems"(1) show ?case by simp
next
  case (2 cfg dirpath rel st)
  then show ?case by simp
next
  case (3 cfg dirpath rel d t ds st)
  show ?case
  proof (cases "d \<in> set (avoid_folders cfg)")
    case True
    with "3.IH"(2) "3.prems" show ?thesis by simp
  next
    case False
    with "3.IH"(1) "3.prems" have "I (walk cfg (path_join dirpath d) (path_join rel d) t st)" by blast
    with "3.IH"(2) "3.prems"(1) False show ?thesis by simp
  qed
qed

lemma scan_invariant:
  assumes "\<forall>dirpath rel fname io st. I st \<longrightarrow> I (process_file cfg dirpath rel fname io st)"
    and "I scan_init"
  shows "I (scan cfg tree)"
  unfolding scan_def using assms by (rule walk_invariant(1))

lemma detect_programming_language_cases:
  "detect_programming_language fname = None \<or>
   (\<exists>l. detect_programming_language fname = Some l \<and> l \<in> snd ` set language_extensions)"
  unfolding detect_programming_language_def
  by (cases "map_of language_extensions (splitext_ext fname)") (auto dest: map_of_SomeD intro: rev_image_eqI)

lemma language_names_nonempty: "l \<in> snd ` set language_extensions \<Longrightarrow> l \<noteq> []"
  by (auto simp: language_extensions_def)

lemma snapshot_file_names_scan:
  "snapshot_file_names (generate_context_data cfg tree) = map File (project_sources (scan cfg tree))"
  by (simp add: snapshot_file_names_def generate_context_data_def json_field_def dict_get_def
      source_data_def Let_def comp_def)

lemma snapshot_language_scan:
  "json_field (generate_context_data cfg tree) ''programming_language'' =
     JStr (case detected_language (scan cfg tree) of
             None \<Rightarrow> ''unknown'' | Some l \<Rightarrow> if l = [] then ''unknown'' else l)"
  by (simp add: generate_context_data_def json_field_def dict_get_def Let_def)

lemma process_file_sources:
  "project_sources (process_file cfg dirpath rel fname io st) = project_sources st \<or>
   (classify cfg fname \<noteq> Skip \<and>
    (\<exists>f. File f = fname \<and> project_sources (process_file cfg dirpath rel fname io st) = project_sources st @ [f]))"
  by (cases io) (auto simp: process_file_def)

lemma admitted_sources_scan:
  "\<forall>f \<in> set (project_sources (scan cfg tree)). classify cfg (File f) \<noteq> Skip"
proof (rule scan_invariant)
  show "\<forall>dirpath rel fname io st.
          (\<forall>f \<in> set (project_sources st). classify cfg (File f) \<noteq> Skip) \<longrightarrow>
          (\<forall>f \<in> set (project_sources (process_file cfg dirpath rel fname io st)). classify cfg (File f) \<noteq> Skip)"
  proof (intro allI impI)
    fix dirpath rel fname io and st :: scan_state
    assume "\<forall>f \<in> set (project_sources st). classify cfg (File f) \<noteq> Skip"
    with process_file_sources [of cfg dirpath rel fname io st]
    show "\<forall>f \<in> set (project_sources (process_file cfg dirpath rel fname io st)). classify cfg (File f) \<noteq> Skip"
      by auto
  qed
  show "\<forall>f \<in> set (project_sources scan_init). classify cfg (File f) \<noteq> Skip"
    by (simp add: scan_init_def)
qed

text \<open>
  Claim C5. The classification has exactly one of the three outcomes for every file
  name, and a file that is not on the exclusion list and whose lower-cased extension is
  a binary extension is skipped, whatever the include list and the key-file list hold.
\<close>

theorem classifier_total_binary_first:
  "(classify cfg fname = Skip \<or> classify cfg fname = IncludeSource \<or> classify cfg fname = IncludeKeyFile)
   \<and> (fname \<notin> set (avoid_files cfg) \<and> py_lower (splitext_ext fname) \<in> set BINARY_EXTENSIONS
        \<longrightarrow> classify cfg fname = Skip)"
  by (cases "classify cfg fname") (simp_all add: classify_def)

theorem classifier_total_binary_first_witness:
  "classify \<lparr>root_dir = ''/p'', avoid_folders = [], avoid_files = [''yarn.lock''],
             include_extensions = [''.png'', ''.py''], key_files = [''logo.PNG'']\<rparr> ''logo.PNG'' = Skip"
proof -
  have "py_lower (splitext_ext ''logo.PNG'') \<in> set BINARY_EXTENSIONS"
    by code_simp
  then show ?thesis
    using classifier_total_binary_first
      [of "\<lparr>root_dir = ''/p'', avoid_folders = [], avoid_files = [''yarn.lock''],
             include_extensions = [''.png'', ''.py''], key_files = [''logo.PNG'']\<rparr>" "''logo.PNG''"]
    by simp
qed

text \<open>
  Claim C9. Under the default configuration \<open>Dockerfile\<close> and \<open>Makefile\<close> are on the
  exclusion list and on the key-file list; the exclusion list is checked first, so a file
  with either name is skipped and is never among the \<open>project_sources\<close> of a snapshot.
\<close>

theorem dockerfile_makefile_always_skipped:
  assumes "fname = ''Dockerfile'' \<or> fname = ''Makefile''"
  shows "fname \<in> set COMMON_AVOID_FILES \<and> fname \<in> set KEY_FILES
         \<and> classify (default_config dirpath) fname = Skip
         \<and> fname \<notin> set (snapshot_file_names (generate_context_data (default_config dirpath) tree))"
proof -
  have avoid: "fname \<in> set COMMON_AVOID_FILES"
    using assms by (auto simp: COMMON_AVOID_FILES_def)
  have key: "fname \<in> set KEY_FILES"
    using assms by (auto simp: KEY_FILES_def)
  have skip: "classify (default_config dirpath) fname = Skip"
    using avoid by (simp add: classify_def default_config_def)
  have "fname \<notin> File ` set (project_sources (scan (default_config dirpath) tree))"
    using admitted_sources_scan [of "default_config dirpath" tree] skip by auto
  then show ?thesis
    using avoid key skip by (simp add: snapshot_file_names_scan)
qed

theorem dockerfile_makefile_always_skipped_witness:
  "''Makefile'' \<notin> set (snapshot_file_names (generate_context_data (default_config ''/home/u/proj'')
       (Dir [(''Makefile'', Readable ''all:'' 4 ''2024-01-01 00:00:00''),
             (''main.c'', Readable ''int main(){}'' 12 ''2024-01-01 00:00:00'')]
            [(''docker'', Dir [(''Dockerfile'', Readable ''FROM scratch'' 12 ''2024-01-01 00:00:00'')] [])])))
   \<and> classify (default_config ''/home/u/proj'') ''Makefile'' = Skip"
  using dockerfile_makefile_always_skipped [of "''Makefile''" "''/home/u/proj''"]
  by simp

section \<open>Language detection\<close>

lemma find_append_single:
  "List.find P (xs @ [x]) = (case List.find P xs of Some y \<Rightarrow> Some y | None \<Rightarrow> if P x then Some x else None)"
  by (induction xs) auto

lemma bind_find_None:
  "Option.bind (List.find (\<lambda>x. f x \<noteq> None) xs) f = None \<Longrightarrow> List.find (\<lambda>x. f x \<noteq> None) xs = None"
  by (induction xs) (auto split: if_splits)

lemma detect_not_empty: "detect_programming_language fname \<noteq> Some []"
proof
  assume "detect_programming_language fname = Some []"
  with detect_programming_language_cases [of fname] have "[] \<in> snd ` set language_extensions"
    by simp
  then show False
    using language_names_nonempty by blast
qed

lemma first_match_inv_not_empty: "first_match_inv st \<Longrightarrow> detected_language st \<noteq> Some []"
  unfolding first_match_inv_def
  by (cases "List.find (\<lambda>fname. detect_programming_language fname \<noteq> None) (map File (project_sources st))")
     (auto simp: detect_not_empty)

lemma process_file_first_match:
  assumes "first_match_inv st"
  shows "first_match_inv (process_file cfg dirpath rel fname io st)"
proof (cases "classify cfg fname = Skip")
  case True
  with assms show ?thesis by (simp add: process_file_def)
next
  case False
  show ?thesis
  proof (cases io)
    case Unreadable
    with assms show ?thesis by (simp add: process_file_def)
  next
    case (Readable content st_size mtime)
    note ne = first_match_inv_not_empty [OF assms]
    show ?thesis
    proof (cases "detected_language st")
      case None
      with assms have "List.find (\<lambda>fname. detect_programming_language fname \<noteq> None)
                          (map File (project_sources st)) = None"
        unfolding first_match_inv_def by (intro bind_find_None) simp
      with None False Readable show ?thesis
        by (auto simp: first_match_inv_def process_file_def find_append_single)
    next
      case (Some l)
      with ne have "l \<noteq> []" by auto
      from Some assms obtain y where
        "List.find (\<lambda>fname. detect_programming_language fname \<noteq> None) (map File (project_sources st)) = Some y"
        unfolding first_match_inv_def
        by (cases "List.find (\<lambda>fname. detect_programming_language fname \<noteq> None) (map File (project_sources st))")
           auto
      note y = this
      have lang: "detected_language (process_file cfg dirpath rel fname io st) = Some l"
        using Some \<open>l \<noteq> []\<close> Readable by (simp add: process_file_def)
      have srcs: "List.find (\<lambda>fname. detect_programming_language fname \<noteq> None)
                    (map File (project_sources (process_file cfg dirpath rel fname io st))) = Some y"
        using y False Readable by (simp add: process_file_def find_append_single)
      have "Option.bind (Some y) detect_programming_language = Some l"
        using assms Some y unfolding first_match_inv_def by simp
      with lang srcs show ?thesis
        unfolding first_match_inv_def by simp
    qed
  qed
qed

lemma scan_first_match: "first_match_inv (scan cfg tree)"
proof (rule scan_invariant)
  show "\<forall>dirpath rel fname io st. first_match_inv st \<longrightarrow> first_match_inv (process_file cfg dirpath rel fname io st)"
    by (simp add: process_file_first_match)
  show "first_match_inv scan_init"
    by (simp add: first_match_inv_def scan_init_def)
qed

lemma process_file_keeps_language:
  assumes "detected_language st = Some l" and "l \<noteq> []"
  shows "detected_language (process_file cfg dirpath rel fname io st) = Some l"
  using assms by (cases io) (auto simp: process_file_def)

lemma walk_keeps_language:
  assumes "detected_language st = Some l" and "l \<noteq> []"
  shows "detected_language (walk cfg dirpath rel t st) = Some l"
proof -
  have "\<forall>dirpath rel fname io (st :: scan_state). detected_language st = Some l
          \<longrightarrow> detected_language (process_file cfg dirpath rel fname io st) = Some l"
    using assms(2) by (simp add: process_file_keeps_language)
  then show ?thesis
    using assms(1) by (rule walk_invariant(1))
qed

lemma process_file_unmapped:
  assumes "detect_programming_language fname = None" and "detected_language st \<noteq> Some []"
  shows "detected_language (process_file cfg dirpath rel fname io st) = detected_language st"
  using assms by (cases io; cases "detected_language st") (auto simp: process_file_def)


lemma scan_language_cases:
  "detected_language (scan cfg tree) = None \<or>
   (\<exists>l. detected_language (scan cfg tree) = Some l \<and> l \<in> snd ` set language_extensions)"
proof (cases "List.find (\<lambda>fname. detect_programming_language fname \<noteq> None)
                (map File (project_sources (scan cfg tree)))")
  case None
  with scan_first_match [of cfg tree] show ?thesis
    by (simp add: first_match_inv_def)
next
  case (Some y)
  with scan_first_match [of cfg tree]
  have "detected_language (scan cfg tree) = detect_programming_language y"
    by (simp add: first_match_inv_def)
  with detect_programming_language_cases [of y] show ?thesis
    by auto
qed

text \<open>
  Claim C3, as stated, fails: for a project with one Python file the snapshot holds
  \<open>Python\<close>, the display name from \<open>language_extensions\<close>, which is neither lower-case
  nor \<open>unknown\<close>.
\<close>

theorem snapshot_language_not_lowercase:
  "json_field (generate_context_data (default_config ''/home/u/proj'')
       (Dir [(''main.py'', Readable ''print(1)'' 8 ''2024-01-01 00:00:00'')] []))
     ''programming_language'' = JStr ''Python''
   \<and> py_lower ''Python'' \<noteq> ''Python'' \<and> ''Python'' \<noteq> ''unknown''"
  by code_simp

text \<open>
  Claim C3, amended. For every scan, the \<open>programming_language\<close> field of the snapshot
  is \<open>unknown\<close> or one of the display names of \<open>language_extensions\<close> (the lower-casing
  is done by the aggregation when it reads the snapshot).
\<close>

theorem snapshot_language_display_name:
  "\<exists>l. json_field (generate_context_data cfg tree) ''programming_language'' = JStr l
       \<and> (l = ''unknown'' \<or> l \<in> snd ` set language_extensions)"
proof -
  from scan_language_cases [of cfg tree] show ?thesis
  proof
    assume "detected_language (scan cfg tree) = None"
    then show ?thesis by (simp add: snapshot_language_scan)
  next
    assume "\<exists>l. detected_language (scan cfg tree) = Some l \<and> l \<in> snd ` set language_extensions"
    then obtain l where l: "detected_language (scan cfg tree) = Some l" "l \<in> snd ` set language_extensions"
      by blast
    then have "l \<noteq> []" using language_names_nonempty by blast
    with l show ?thesis by (simp add: snapshot_language_scan)
  qed
qed

text \<open>The scan is the loop body folded over the walk order of the tree.\<close>

lemma fold_files_entries:
  "fold (\<lambda>(fname, io). process_file cfg dirpath rel fname io) files st
   = fold (process_entry cfg) (map (\<lambda>(fname, io). (dirpath, rel, fname, io)) files) st"
  by (induction files arbitrary: st) (auto simp: process_entry_def entry_name_def)

lemma walk_fold_entries:
  shows "walk cfg dirpath rel t st = fold (process_entry cfg) (walk_entries cfg dirpath rel t) st"
    and "walk_dirs cfg dirpath rel ds st = fold (process_entry cfg) (walk_dirs_entries cfg dirpath rel ds) st"
proof (induction cfg dirpath rel t st and cfg dirpath rel ds st rule: walk_walk_dirs.induct)
  case (1 cfg dirpath rel files dirs st)
  then show ?case by (simp add: fold_files_entries)
next
  case (2 cfg dirpath rel st)
  then show ?case by simp
next
  case (3 cfg dirpath rel d t ds st)
  then show ?case by simp
qed

lemma scan_fold_walk_order: "scan cfg tree = fold (process_entry cfg) (walk_order cfg tree) scan_init"
  by (simp add: scan_def walk_order_def walk_fold_entries)

lemma process_entry_names:
  "map File (project_sources (process_entry cfg e st))
   = map File (project_sources st) @ (if entry_read cfg e then [entry_name e] else [])"
  by (cases "snd (snd (snd e))") (auto simp: process_entry_def process_file_def entry_read_def)

lemma fold_process_entry_names:
  "map File (project_sources (fold (process_entry cfg) es st))
   = map File (project_sources st) @ map entry_name (filter (entry_read cfg) es)"
  by (induction es arbitrary: st) (simp_all add: process_entry_names)

lemma scan_names_walk_order:
  "map File (project_sources (scan cfg tree)) = map entry_name (filter (entry_read cfg) (walk_order cfg tree))"
  by (simp add: scan_fold_walk_order fold_process_entry_names scan_init_def)

lemma find_map_filter:
  "List.find P (map f (filter Q xs)) = map_option f (List.find (\<lambda>x. Q x \<and> P (f x)) xs)"
  by (induction xs) auto

lemma scan_language_walk_order:
  "detected_language (scan cfg tree) =
     Option.bind
       (List.find (\<lambda>e. entry_read cfg e \<and> detect_programming_language (entry_name e) \<noteq> None)
                  (walk_order cfg tree))
       (\<lambda>e. detect_programming_language (entry_name e))"
proof -
  have "detected_language (scan cfg tree) =
          Option.bind (List.find (\<lambda>fname. detect_programming_language fname \<noteq> None)
                                 (map File (project_sources (scan cfg tree))))
                      detect_programming_language"
    using scan_first_match [of cfg tree] by (simp add: first_match_inv_def)
  then show ?thesis
    unfolding scan_names_walk_order find_map_filter
    by (cases "List.find (\<lambda>e. entry_read cfg e \<and> detect_programming_language (entry_name e) \<noteq> None)
                 (walk_order cfg tree)") simp_all
qed

text \<open>
  Claim C4. After a scan the detected language is the language of the first file in
  walk order of the directory tree that is read (admitted by the classification and
  readable) and whose extension maps to a language; the snapshot's source files are the
  files read, in walk order; once set, the language stays through every later file and
  directory; a file whose extension maps to no language does not change it. The
  witness has the scan of \<open>a.json\<close>, \<open>b.py\<close>, \<open>c.js\<close>, whose snapshot says \<open>Python\<close>,
  and a project whose first mapped file lies in a subdirectory, behind a pruned one.
\<close>

theorem language_detection_first_match:
  "detected_language (scan cfg tree) =
     Option.bind
       (List.find (\<lambda>e. entry_read cfg e \<and> detect_programming_language (entry_name e) \<noteq> None)
                  (walk_order cfg tree))
       (\<lambda>e. detect_programming_language (entry_name e))
   \<and> map File (project_sources (scan cfg tree))
       = map entry_name (filter (entry_read cfg) (walk_order cfg tree))
   \<and> detected_language (scan cfg tree) =
       Option.bind (List.find (\<lambda>fname. detect_programming_language fname \<noteq> None)
                              (map File (project_sources (scan cfg tree))))
                   detect_programming_language
   \<and> (detected_language st = Some l \<and> l \<noteq> [] \<longrightarrow>
        detected_language (process_file cfg dirpath rel fname io st) = Some l
        \<and> detected_language (walk cfg dirpath rel t st) = Some l)
   \<and> (detect_programming_language fname = None \<and> detected_language st \<noteq> Some [] \<longrightarrow>
        detected_language (process_file cfg dirpath rel fname io st) = detected_language st)"
  using scan_first_match [of cfg tree] process_file_keeps_language [of st l cfg dirpath rel fname io]
    walk_keeps_language [of st l cfg dirpath rel t] process_file_unmapped [of fname st cfg dirpath rel io]
    scan_language_walk_order [of cfg tree] scan_names_walk_order [of cfg tree]
  by (simp add: first_match_inv_def)

theorem language_detection_first_match_witness:
  "json_field (generate_context_data (default_config ''/home/u/proj'')
       (Dir [(''a.json'', Readable ''{}'' 2 ''2024-01-01 00:00:00''),
             (''b.py'', Readable ''import os'' 9 ''2024-01-01 00:00:00''),
             (''c.js'', Readable ''var x;'' 6 ''2024-01-01 00:00:00'')] []))
     ''programming_language'' = JStr ''Python''
   \<and> json_field (generate_context_data (default_config ''/home/u/proj'')
       (Dir [(''README.txt'', Readable ''notes'' 5 ''2024-01-01 00:00:00'')]
            [(''node_modules'', Dir [(''dep.js'', Readable ''var d;'' 6 ''2024-01-01 00:00:00'')] []),
             (''src'', Dir [(''main.py'', Readable ''import os'' 9 ''2024-01-01 00:00:00'')]
                           [(''deep'', Dir [(''tool.go'', Readable ''package m'' 9 ''2024-01-01 00:00:00'')] [])]),
             (''web'', Dir [(''app.js'', Readable ''var x;'' 6 ''2024-01-01 00:00:00'')] [])]))
     ''programming_language'' = JStr ''Python''
   \<and> detected_language (process_file (default_config ''/home/u/proj'') ''/home/u/proj'' [] ''c.js''
         (Readable ''var x;'' 6 ''2024-01-01 00:00:00'')
         (scan (default_config ''/home/u/proj'')
            (Dir [(''a.json'', Readable ''{}'' 2 ''2024-01-01 00:00:00''),
                  (''b.py'', Readable ''import os'' 9 ''2024-01-01 00:00:00'')] []))) = Some ''Python''
   \<and> detected_language (process_file (default_config ''/home/u/proj'') ''/home/u/proj'' [] ''a.json''
         (Readable ''{}'' 2 ''2024-01-01 00:00:00'') scan_init) = None"
proof -
  let ?cfg = "default_config ''/home/u/proj''"
  let ?ab = "Dir [(''a.json'', Readable ''{}'' 2 ''2024-01-01 00:00:00''),
                  (''b.py'', Readable ''import os'' 9 ''2024-01-01 00:00:00'')] []"
  let ?abc = "Dir [(''a.json'', Readable ''{}'' 2 ''2024-01-01 00:00:00''),
                   (''b.py'', Readable ''import os'' 9 ''2024-01-01 00:00:00''),
                   (''c.js'', Readable ''var x;'' 6 ''2024-01-01 00:00:00'')] []"
  let ?sub = "Dir [(''README.txt'', Readable ''notes'' 5 ''2024-01-01 00:00:00'')]
            [(''node_modules'', Dir [(''dep.js'', Readable ''var d;'' 6 ''2024-01-01 00:00:00'')] []),
             (''src'', Dir [(''main.py'', Readable ''import os'' 9 ''2024-01-01 00:00:00'')]
                           [(''deep'', Dir [(''tool.go'', Readable ''package m'' 9 ''2024-01-01 00:00:00'')] [])]),
             (''web'', Dir [(''app.js'', Readable ''var x;'' 6 ''2024-01-01 00:00:00'')] [])]"
  have flat: "Option.bind
       (List.find (\<lambda>e. entry_read ?cfg e \<and> detect_programming_language (entry_name e) \<noteq> None)
                  (walk_order ?cfg ?abc))
       (\<lambda>e. detect_programming_language (entry_name e)) = Some ''Python''"
    by code_simp
  have sub: "Option.bind
       (List.find (\<lambda>e. entry_read ?cfg e \<and> detect_programming_language (entry_name e) \<noteq> None)
                  (walk_order ?cfg ?sub))
       (\<lambda>e. detect_programming_language (entry_name e)) = Some ''Python''"
    by code_simp
  have det: "detect_programming_language ''a.json'' = None"
    by code_simp
  have ab: "detected_language (scan ?cfg ?ab) = Some ''Python''"
    by code_simp
  have init: "detected_language scan_init = None"
    by (simp add: scan_init_def)
  have "detected_language (scan ?cfg ?abc) = Some ''Python''"
    using language_detection_first_match [of ?cfg ?abc] flat by simp
  then have first: "json_field (generate_context_data ?cfg ?abc) ''programming_language'' = JStr ''Python''"
    by (simp add: snapshot_language_scan)
  have "detected_language (scan ?cfg ?sub) = Some ''Python''"
    using language_detection_first_match [of ?cfg ?sub] sub by simp
  then have nested: "json_field (generate_context_data ?cfg ?sub) ''programming_language'' = JStr ''Python''"
    by (simp add: snapshot_language_scan)
  have second: "detected_language (process_file ?cfg ''/home/u/proj'' [] ''c.js''
                  (Readable ''var x;'' 6 ''2024-01-01 00:00:00'') (scan ?cfg ?ab)) = Some ''Python''"
    using language_detection_first_match [of ?cfg ?abc "scan ?cfg ?ab" "''Python''" "''/home/u/proj''" "[]" "''c.js''"
        "Readable ''var x;'' 6 ''2024-01-01 00:00:00''"] ab
    by simp
  have third: "detected_language (process_file ?cfg ''/home/u/proj'' [] ''a.json''
                  (Readable ''{}'' 2 ''2024-01-01 00:00:00'') scan_init) = None"
    using language_detection_first_match [of ?cfg ?abc scan_init "''Python''" "''/home/u/proj''" "[]" "''a.json''"
        "Readable ''{}'' 2 ''2024-01-01 00:00:00''"] det init
    by simp
  from first nested second third show ?thesis by simp
qed

section \<open>The report: order and content\<close>

text \<open>
  Both sorts are descending and stable: among entries with equal keys the order of the
  sorted list is the order of the dict that was sorted.
\<close>

lemma sorted_desc_descending: "sorted (map (\<lambda>x. - f x) (sorted_desc f xs))"
  by (simp add: sorted_desc_def)

lemma sorted_desc_stable: "filter (\<lambda>x. f x = k) (sorted_desc f xs) = filter (\<lambda>x. f x = k) xs"
  using sort_key_stable [of "\<lambda>x. - f x" "- k" xs] by (simp add: sorted_desc_def)

lemma sorted_desc_set: "set (sorted_desc f xs) = set xs"
  by (simp add: sorted_desc_def)

lemma aggregate_snapshots_descending:
  "sorted (map (\<lambda>e. - file_count e) (aggregate_snapshots store))"
  by (simp add: aggregate_snapshots_def sorted_desc_descending)

lemma aggregate_snapshots_ties:
  "filter (\<lambda>e. file_count e = k) (aggregate_snapshots store)
   = filter (\<lambda>e. file_count e = k) (overall_data (fold aggregate_step store agg_init))"
  by (simp add: aggregate_snapshots_def sorted_desc_stable)

lemma libs_list_descending: "sorted (map (\<lambda>l. - times_imported l) (libs_list libs))"
proof -
  have "map (\<lambda>l. - times_imported l) (libs_list libs) = map (\<lambda>x. - snd x) (sorted_desc snd libs)"
    by (simp add: libs_list_def comp_def case_prod_beta)
  then show ?thesis by (simp add: sorted_desc_descending)
qed

lemma libs_list_ties:
  "filter (\<lambda>l. times_imported l = k) (libs_list libs)
   = map (\<lambda>(lib, count). \<lparr>library_name = lib, times_imported = count\<rparr>) (filter (\<lambda>x. snd x = k) libs)"
proof -
  have "filter (\<lambda>l. times_imported l = k) (libs_list libs)
        = map (\<lambda>(lib, count). \<lparr>library_name = lib, times_imported = count\<rparr>)
              (filter (\<lambda>x. snd x = k) (sorted_desc snd libs))"
    by (simp add: libs_list_def filter_map comp_def case_prod_beta)
  then show ?thesis by (simp add: sorted_desc_stable)
qed

lemma aggregate_snapshots_libraries_descending:
  assumes "e \<in> set (aggregate_snapshots store)"
  shows "sorted (map (\<lambda>l. - times_imported l) (libraries_used e))"
proof -
  from assms have "e \<in> set (overall_data (fold aggregate_step store agg_init))"
    by (simp add: aggregate_snapshots_def sorted_desc_set)
  then obtain lang libs where "libraries_used e = libs_list libs"
    by (auto simp: overall_data_def)
  then show ?thesis by (simp add: libs_list_descending)
qed

text \<open>
  Claim C1 at a failing input. A project with one Python file that imports nothing
  gives a snapshot with language \<open>Python\<close>, \<open>file_count\<close> 1 and no libraries. The
  report is built from the keys of \<open>imports_agg\<close>, which gets a key only when a library
  entry is added, so the report over this snapshot has no entry for \<open>python\<close>.
\<close>

theorem language_without_libraries_dropped:
  "json_field (generate_context_data (default_config ''/home/u/api'')
       (Dir [(''main.py'', Readable ''print(1)'' 8 ''2024-01-01 00:00:00'')] [])) ''programming_language''
     = JStr ''Python''
   \<and> json_field (generate_context_data (default_config ''/home/u/api'')
       (Dir [(''main.py'', Readable ''print(1)'' 8 ''2024-01-01 00:00:00'')] [])) ''file_count'' = JInt 1
   \<and> aggregate_snapshots
       [(''api_snapshot_202401010000.json'',
         Some (generate_context_data (default_config ''/home/u/api'')
                 (Dir [(''main.py'', Readable ''print(1)'' 8 ''2024-01-01 00:00:00'')] [])))] = []"
  by code_simp

text \<open>
  Claim C7 at a failing input. \<open>python\<close> is met first (a snapshot without libraries),
  then \<open>java\<close>, then \<open>python\<close> again; both languages total 3 files. The report lists
  \<open>java\<close> before \<open>python\<close>: ties keep the order of \<open>imports_agg\<close>, the order in which
  the languages got their first library.
\<close>

theorem equal_counts_order_follows_first_library:
  "aggregate_snapshots
     [(''a_snapshot_202401010000.json'', Some (valid_snapshot ''Python'' 1 [])),
      (''b_snapshot_202401010000.json'', Some (valid_snapshot ''Java'' 3 [(''java.util.List'', 1)])),
      (''c_snapshot_202401010000.json'', Some (valid_snapshot ''Python'' 2 [(''os'', 1)]))]
   = [\<lparr>programming_language = ''java'',
        libraries_used = [\<lparr>library_name = JStr ''java.util.List'', times_imported = 1\<rparr>],
        file_count = 3\<rparr>,
      \<lparr>programming_language = ''python'',
        libraries_used = [\<lparr>library_name = JStr ''os'', times_imported = 1\<rparr>],
        file_count = 3\<rparr>]"
  by code_simp

section \<open>Python import counting\<close>

lemma skip_run_Nil [simp]: "skip_run P b [] = (b, [])"
  by (simp add: skip_run_def)

lemma skip_run_Cons:
  "skip_run P b (c # cs) = (if P c then skip_run P (c = CHR 0x0A) cs else (b, c # cs))"
  by (simp add: skip_run_def)

lemma star_ends_hd: "\<exists>tl. star_ends P b s = skip_run P b s # tl"
proof (induction s arbitrary: b)
  case Nil
  then show ?case by simp
next
  case (Cons c cs)
  show ?case
  proof (cases "P c")
    case True
    from Cons [of "c = CHR 0x0A"] obtain tl where
      "star_ends P (c = CHR 0x0A) cs = skip_run P (c = CHR 0x0A) cs # tl" by blast
    with True show ?thesis by (simp add: skip_run_Cons)
  next
    case False
    then show ?thesis by (simp add: skip_run_Cons)
  qed
qed

lemma seq_star_skip:
  assumes "\<And>b c cs g. P c \<Longrightarrow> rx_match r (b, c # cs) g = []"
  shows "rx_match (Seq (Star P) r) (b, s) g = rx_match r (skip_run P b s) g"
proof -
  have "concat (map (\<lambda>(q, h). rx_match r q h) (map (\<lambda>q. (q, g)) (star_ends P b s)))
        = rx_match r (skip_run P b s) g"
    by (induction s arbitrary: b) (simp_all add: skip_run_Cons assms)
  then show ?thesis by simp
qed

lemma seq_plus_skip:
  assumes "\<And>b c cs g. P c \<Longrightarrow> rx_match r (b, c # cs) g = []"
  shows "rx_match (Seq (Plus P) r) (b, s) g =
           (case s of [] \<Rightarrow> [] | c # cs \<Rightarrow> if P c then rx_match r (skip_run P (c = CHR 0x0A) cs) g else [])"
proof (cases s)
  case Nil
  then show ?thesis by simp
next
  case (Cons c cs)
  have "concat (map (\<lambda>(q, h). rx_match r q h) (map (\<lambda>q. (q, g)) (star_ends P b' cs)))
        = rx_match r (skip_run P b' cs) g" for b'
    using seq_star_skip [of P r b' cs g] assms by simp
  with Cons show ?thesis by simp
qed


lemma is_space_newline [simp]: "is_space (CHR 0x0A)"
  by (simp add: is_space_def)

lemma token_char_not_space: "is_token_char c \<Longrightarrow> \<not> is_space c"
  by (simp add: is_token_char_def)

lemma token_char_not_newline: "is_token_char c \<Longrightarrow> c \<noteq> CHR 0x0A"
  using is_space_newline by (auto simp: is_token_char_def)

lemma keyword_not_space:
  "is_space c \<Longrightarrow> \<not> prefix ''import'' (c # cs)" "is_space c \<Longrightarrow> \<not> prefix ''from'' (c # cs)"
  by (auto simp: is_space_def)

lemma take_length_takeWhile: "take (length xs - length (dropWhile P xs)) xs = takeWhile P xs"
proof -
  have "length xs - length (dropWhile P xs) = length (takeWhile P xs)"
    by (metis add_diff_cancel_right' length_append takeWhile_dropWhile_id)
  then show ?thesis
    by (metis append_eq_conv_conj takeWhile_dropWhile_id)
qed

lemma skip_run_snd [simp]: "snd (skip_run P b s) = dropWhile P s"
  by (simp add: skip_run_def)

lemma skip_run_fst_token:
  "fst (skip_run is_token_char (is_cr) s) = (if takeWhile is_token_char s = [] then is_cr else False)"
proof (cases "takeWhile is_token_char s = []")
  case True
  then show ?thesis by (simp add: skip_run_def)
next
  case False
  then have "last (takeWhile is_token_char s) \<in> set (takeWhile is_token_char s)" by simp
  then have "is_token_char (last (takeWhile is_token_char s))"
    by (meson set_takeWhileD)
  with False show ?thesis by (simp add: skip_run_def token_char_not_newline)
qed


lemma py_import_re_token:
  "py_import_re =
     Seq Bol (Seq (Star is_space) (Seq (Alt (Lit ''import'') (Lit ''from''))
       (Seq (Plus is_space) (Grp 1 (Plus is_token_char)))))"
proof -
  have "is_token_char = (\<lambda>c. \<not> is_space c \<and> c \<noteq> CHR '','')"
    by (rule ext) (simp add: is_token_char_def)
  then show ?thesis by (simp add: py_import_re_def)
qed

lemma group_token_none:
  assumes "s = [] \<or> \<not> is_token_char (hd s)"
  shows "rx_match (Grp n (Plus is_token_char)) (b, s) g = []"
  using assms by (cases s) auto

lemma group_token_some:
  assumes "s \<noteq> []" and "is_token_char (hd s)"
  shows "\<exists>tl. rx_match (Grp n (Plus is_token_char)) (b, s) g
              = ((False, dropWhile is_token_char s),
                 (n, takeWhile is_token_char s) # filter (\<lambda>e. fst e \<noteq> n) g) # tl"
proof -
  from assms obtain c cs where s: "s = c # cs" and c: "is_token_char c"
    by (cases s) auto
  obtain tl where tl: "star_ends is_token_char (c = CHR 0x0A) cs = skip_run is_token_char (c = CHR 0x0A) cs # tl"
    using star_ends_hd by blast
  have nl: "c \<noteq> CHR 0x0A" using c by (rule token_char_not_newline)
  have fst: "fst (skip_run is_token_char False cs) = False"
    by (simp add: skip_run_fst_token)
  have snd: "snd (skip_run is_token_char False cs) = dropWhile is_token_char cs"
    by simp
  have sk: "skip_run is_token_char False cs = (False, dropWhile is_token_char cs)"
    using fst snd by (metis prod.collapse)
  have cap: "take (length (c # cs) - length (dropWhile is_token_char cs)) (c # cs) = c # takeWhile is_token_char cs"
  proof -
    have "length (dropWhile is_token_char cs) \<le> length cs"
      by (rule length_dropWhile_le)
    then have "length (c # cs) - length (dropWhile is_token_char cs)
               = Suc (length cs - length (dropWhile is_token_char cs))"
      by simp
    then show ?thesis by (simp add: take_length_takeWhile)
  qed
  show ?thesis
    using s c nl tl sk cap by simp
qed

lemma rx_match_py_import_re:
  "rx_match py_import_re (b, s) g =
     (if b then
        (case after_keyword (dropWhile is_space s) of
           None \<Rightarrow> []
         | Some a \<Rightarrow>
             (case a of
                [] \<Rightarrow> []
              | c # cs \<Rightarrow>
                  if is_space c
                  then rx_match (Grp 1 (Plus is_token_char)) (skip_run is_space (c = CHR 0x0A) cs) g
                  else []))
      else [])"
proof -
  let ?R4 = "Grp 1 (Plus is_token_char)"
  let ?R3 = "Seq (Plus is_space) ?R4"
  let ?R2 = "Seq (Alt (Lit ''import'') (Lit ''from'')) ?R3"
  have r4: "rx_match ?R4 (b', c # cs) g' = []" if "is_space c" for b' c cs g'
    using that by (auto simp: is_token_char_def)
  have r3: "rx_match ?R3 (b', a) g' =
              (case a of [] \<Rightarrow> [] | c # cs \<Rightarrow>
                 if is_space c then rx_match ?R4 (skip_run is_space (c = CHR 0x0A) cs) g' else [])" for b' a g'
    using r4 by (rule seq_plus_skip)
  have r2: "rx_match ?R2 (b', s1) g' =
              (case after_keyword s1 of None \<Rightarrow> [] | Some a \<Rightarrow> rx_match ?R3 (False, a) g')" for b' s1 g'
  proof -
    have excl: "\<not> (prefix ''import'' s1 \<and> prefix ''from'' s1)"
      by (cases s1) auto
    have alt: "rx_match (Alt (Lit ''import'') (Lit ''from'')) (b', s1) g' =
                 (case after_keyword s1 of None \<Rightarrow> [] | Some a \<Rightarrow> [((False, a), g')])"
      using excl by (auto simp: after_keyword_def advance_def eval_nat_numeral)
    have "rx_match ?R2 (b', s1) g' =
            concat (map (\<lambda>(q, h). rx_match ?R3 q h) (rx_match (Alt (Lit ''import'') (Lit ''from'')) (b', s1) g'))"
      by (rule rx_match.simps(7))
    also have "\<dots> = (case after_keyword s1 of None \<Rightarrow> [] | Some a \<Rightarrow> rx_match ?R3 (False, a) g')"
      unfolding alt by (cases "after_keyword s1") (simp_all del: rx_match.simps)
    finally show ?thesis .
  qed
  have r2_space: "rx_match ?R2 (b', c # cs) g' = []" if "is_space c" for b' c cs g'
  proof -
    have "after_keyword (c # cs) = None"
      using that keyword_not_space [of c cs] by (simp add: after_keyword_def)
    then show ?thesis by (simp only: r2 option.case)
  qed
  have r1: "rx_match (Seq (Star is_space) ?R2) (b', s') g' = rx_match ?R2 (skip_run is_space b' s') g'" for b' s' g'
    using r2_space by (rule seq_star_skip)
  have "rx_match py_import_re (b, s) g = (if b then rx_match (Seq (Star is_space) ?R2) (b, s) g else [])"
    by (simp add: py_import_re_token)
  also have "\<dots> = (if b then rx_match ?R2 (skip_run is_space b s) g else [])"
    by (simp only: r1)
  also have "\<dots> = (if b then (case after_keyword (dropWhile is_space s) of
                                  None \<Rightarrow> [] | Some a \<Rightarrow> rx_match ?R3 (False, a) g) else [])"
    using r2 [of "fst (skip_run is_space b s)" "dropWhile is_space s" g]
    by (metis prod.collapse skip_run_snd)
  finally show ?thesis
    by (simp only: r3)
qed


lemma takeWhile_empty_iff: "takeWhile P xs = [] \<longleftrightarrow> xs = [] \<or> \<not> P (hd xs)"
  by (cases xs) auto

lemma rx_match_py_not_bol: "rx_match py_import_re (False, s) g = []"
  by (simp only: rx_match_py_import_re if_False)

lemma rx_match_py_none:
  assumes "py_match s = None"
  shows "rx_match py_import_re (b, s) [] = []"
proof (cases b)
  case False
  then show ?thesis by (simp only: rx_match_py_not_bol)
next
  case True
  show ?thesis
  proof (cases "after_keyword (dropWhile is_space s)")
    case None
    with True show ?thesis by (simp only: rx_match_py_import_re if_True option.case)
  next
    case (Some a)
    show ?thesis
    proof (cases a)
      case Nil
      with True Some show ?thesis by (simp only: rx_match_py_import_re if_True option.case list.case)
    next
      case (Cons c cs)
      show ?thesis
      proof (cases "is_space c")
        case False
        with True Some Cons show ?thesis
          by (simp only: rx_match_py_import_re if_True if_False option.case list.case)
      next
        case sp: True
        from assms Some Cons sp have "takeWhile is_token_char (dropWhile is_space cs) = []"
          by (simp add: py_match_def Let_def split: if_splits)
        then have "dropWhile is_space cs = [] \<or> \<not> is_token_char (hd (dropWhile is_space cs))"
          by (simp only: takeWhile_empty_iff)
        then have "rx_match (Grp 1 (Plus is_token_char))
                     (fst (skip_run is_space (c = CHR 0x0A) cs), dropWhile is_space cs) [] = []"
          by (rule group_token_none)
        then have "rx_match (Grp 1 (Plus is_token_char)) (skip_run is_space (c = CHR 0x0A) cs) [] = []"
          by (metis prod.collapse skip_run_snd)
        with True Some Cons sp show ?thesis
          by (simp only: rx_match_py_import_re if_True option.case list.case)
      qed
    qed
  qed
qed

lemma rx_match_py_some:
  assumes "py_match s = Some (x, rest)"
  shows "\<exists>tl. rx_match py_import_re (True, s) [] = ((False, rest), [(1, x)]) # tl"
proof -
  from assms obtain a where a: "after_keyword (dropWhile is_space s) = Some a"
    by (cases "after_keyword (dropWhile is_space s)") (simp_all add: py_match_def)
  from assms a obtain c cs where cs: "a = c # cs"
    by (cases a) (simp_all add: py_match_def)
  from assms a cs have sp: "is_space c"
    by (simp add: py_match_def split: if_splits)
  let ?s3 = "dropWhile is_space cs"
  from assms a cs sp have x: "x = takeWhile is_token_char ?s3" "rest = dropWhile is_token_char ?s3"
    and ne: "takeWhile is_token_char ?s3 \<noteq> []"
    by (auto simp: py_match_def Let_def split: if_splits)
  from ne have "?s3 \<noteq> []" "is_token_char (hd ?s3)"
    by (simp_all add: takeWhile_empty_iff)
  then obtain tl where
    "rx_match (Grp 1 (Plus is_token_char)) (fst (skip_run is_space (c = CHR 0x0A) cs), ?s3) []
       = ((False, dropWhile is_token_char ?s3), (1, takeWhile is_token_char ?s3) # filter (\<lambda>e. fst e \<noteq> 1) []) # tl"
    using group_token_some by blast
  then have "rx_match (Grp 1 (Plus is_token_char)) (skip_run is_space (c = CHR 0x0A) cs) []
       = ((False, rest), [(1, x)]) # tl"
    using x by (metis filter.simps(1) prod.collapse skip_run_snd)
  with a cs sp have "rx_match py_import_re (True, s) [] = ((False, rest), [(1, x)]) # tl"
    by (simp only: rx_match_py_import_re if_True option.case list.case)
  then show ?thesis by blast
qed

lemma after_keyword_shorter: "after_keyword r = Some a \<Longrightarrow> length a < length r"
  by (auto simp: after_keyword_def split: if_splits elim!: prefixE)

lemma py_match_shorter:
  assumes "py_match s = Some (x, rest)"
  shows "length rest < length s"
proof -
  from assms obtain a where a: "after_keyword (dropWhile is_space s) = Some a"
    by (cases "after_keyword (dropWhile is_space s)") (simp_all add: py_match_def)
  from assms a obtain c cs where cs: "a = c # cs"
    by (cases a) (simp_all add: py_match_def)
  from assms a cs have "rest = dropWhile is_token_char (dropWhile is_space cs)"
    by (auto simp: py_match_def Let_def split: if_splits)
  then have "length rest \<le> length cs"
    by (metis length_dropWhile_le order_trans)
  also have "\<dots> < length a" using cs by simp
  also have "\<dots> < length (dropWhile is_space s)" using a by (rule after_keyword_shorter)
  also have "\<dots> \<le> length s" by (rule length_dropWhile_le)
  finally show ?thesis .
qed

lemma findall_py_unfold:
  "findall_from py_import_re (b, s) =
     (case (if b then py_match s else None) of
        None \<Rightarrow> (case s of [] \<Rightarrow> [] | c # cs \<Rightarrow> findall_from py_import_re (c = CHR 0x0A, cs))
      | Some (x, rest) \<Rightarrow> [(1, x)] # findall_from py_import_re (False, rest))"
proof (cases "if b then py_match s else None")
  case None
  then have "rx_match py_import_re (b, s) [] = []"
    by (cases b) (simp_all only: rx_match_py_none rx_match_py_not_bol if_True if_False)
  then have "findall_from py_import_re (b, s) =
               (if s = [] then [] else findall_from py_import_re (step_char (b, s)))"
    by (subst findall_from.simps) simp
  with None show ?thesis
    by (cases s) (simp_all add: step_char_def)
next
  case (Some m)
  obtain x rest where m: "m = (x, rest)" by (cases m)
  with Some have b: "b" and pm: "py_match s = Some (x, rest)"
    by (auto split: if_splits)
  from pm obtain tl where "rx_match py_import_re (True, s) [] = ((False, rest), [(1, x)]) # tl"
    using rx_match_py_some by blast
  moreover have "length rest < length s" using pm by (rule py_match_shorter)
  ultimately have "findall_from py_import_re (b, s) = [(1, x)] # findall_from py_import_re (False, rest)"
    using b by (subst findall_from.simps) simp
  with Some m show ?thesis by simp
qed


lemma findall_py_rest_of_line:
  assumes "CHR 0x0A \<notin> set u" and "line_end e"
  shows "findall_from py_import_re (False, u @ e) = next_line e"
  using assms
proof (induction u)
  case Nil
  then show ?case
    by (cases e) (simp_all add: findall_py_unfold [of False] next_line_def line_end_def)
next
  case (Cons c u)
  from Cons.prems have "c \<noteq> CHR 0x0A" by auto
  then have "findall_from py_import_re (False, c # u @ e) = findall_from py_import_re (False, u @ e)"
    by (simp add: findall_py_unfold [of False "c # u @ e"])
  with Cons show ?case by simp
qed

lemma py_match_blank_line:
  assumes "\<forall>c \<in> set l. is_space c"
  shows "py_match (l @ CHR 0x0A # rest) = py_match rest" and "py_match l = None"
proof -
  have "dropWhile is_space (l @ CHR 0x0A # rest) = dropWhile is_space rest"
    using assms by (simp add: dropWhile_append)
  then show "py_match (l @ CHR 0x0A # rest) = py_match rest"
    by (simp add: py_match_def)
  have "dropWhile is_space l = []" using assms by simp
  then have "after_keyword (dropWhile is_space l) = after_keyword []"
    by (rule arg_cong)
  then have "after_keyword (dropWhile is_space l) = None"
    by (simp add: after_keyword_def)
  then show "py_match l = None"
    by (simp only: py_match_def option.case)
qed

lemma prefix_keyword_line:
  assumes "CHR 0x0A \<notin> set k" and "line_end e"
  shows "prefix k (r @ e) \<longleftrightarrow> prefix k r"
proof
  assume "prefix k (r @ e)"
  then have "prefix k r \<or> (\<exists>k'. k' \<noteq> [] \<and> prefix k' e \<and> k = r @ k')"
    by (auto simp: prefix_append)
  then show "prefix k r"
  proof
    assume "\<exists>k'. k' \<noteq> [] \<and> prefix k' e \<and> k = r @ k'"
    then obtain k' where k': "k' \<noteq> []" "prefix k' e" "k = r @ k'" by blast
    then have "e \<noteq> []" by auto
    with assms(2) have "hd e = CHR 0x0A" by (simp add: line_end_def)
    with k' have "hd k' = CHR 0x0A"
      by (metis hd_append2 prefixE)
    with k' have "CHR 0x0A \<in> set k" by (metis hd_in_set Un_iff set_append)
    with assms(1) show ?thesis by simp
  qed
next
  assume "prefix k r"
  then show "prefix k (r @ e)" by (rule prefix_prefix)
qed

lemma after_keyword_line:
  assumes "line_end e"
  shows "after_keyword (r @ e) = map_option (\<lambda>a. a @ e) (after_keyword r)"
proof -
  have i: "prefix ''import'' (r @ e) \<longleftrightarrow> prefix ''import'' r"
    using assms by (intro prefix_keyword_line) simp_all
  have f: "prefix ''from'' (r @ e) \<longleftrightarrow> prefix ''from'' r"
    using assms by (intro prefix_keyword_line) simp_all
  have di: "drop 6 (r @ e) = drop 6 r @ e" if "prefix ''import'' r"
    using that by (auto elim!: prefixE)
  have df: "drop 4 (r @ e) = drop 4 r @ e" if "prefix ''from'' r"
    using that by (auto elim!: prefixE)
  show ?thesis
    unfolding after_keyword_def i f using di df by simp
qed

lemma after_keyword_set: "after_keyword r = Some a \<Longrightarrow> set a \<subseteq> set r"
  by (auto simp: after_keyword_def split: if_splits dest: in_set_dropD)


lemma token_run_line_end:
  assumes "line_end e"
  shows "takeWhile is_token_char (xs @ e) = takeWhile is_token_char xs"
    and "dropWhile is_token_char (xs @ e) = dropWhile is_token_char xs @ e"
proof -
  have "e = [] \<or> (\<exists>rest. e = CHR 0x0A # rest)"
    using assms by (cases e) (auto simp: line_end_def)
  moreover have "\<not> is_token_char (CHR 0x0A)"
    by (simp add: is_token_char_def)
  ultimately show "takeWhile is_token_char (xs @ e) = takeWhile is_token_char xs"
    and "dropWhile is_token_char (xs @ e) = dropWhile is_token_char xs @ e"
    by (auto simp: takeWhile_tail dropWhile_append3)
qed

lemma py_match_line:
  assumes nl: "CHR 0x0A \<notin> set l" and ns: "\<exists>c \<in> set l. \<not> is_space c"
    and nk: "\<not> keyword_ends_line l" and e: "line_end e"
  shows "(spec_line_import l = None \<longrightarrow> py_match (l @ e) = None)
       \<and> (\<forall>x. spec_line_import l = Some x \<longrightarrow>
             (\<exists>u. CHR 0x0A \<notin> set u \<and> py_match (l @ e) = Some (x, u @ e)))"
proof -
  let ?r = "dropWhile is_space l"
  have d: "dropWhile is_space (l @ e) = ?r @ e"
    using ns by (auto simp: dropWhile_append1)
  have ak: "after_keyword (dropWhile is_space (l @ e)) = map_option (\<lambda>a. a @ e) (after_keyword ?r)"
    unfolding d using e by (rule after_keyword_line)
  show ?thesis
  proof (cases "after_keyword ?r")
    case None
    with ak show ?thesis by (simp add: py_match_def spec_line_import_def)
  next
    case (Some a)
    with nk obtain c' where c': "c' \<in> set a" "\<not> is_space c'"
      by (auto simp: keyword_ends_line_def)
    then obtain c cs where a: "a = c # cs" by (cases a) auto
    have sub: "set a \<subseteq> set l"
      using after_keyword_set [OF Some] set_dropWhileD [of _ is_space l] by blast
    show ?thesis
    proof (cases "is_space c")
      case False
      with Some ak a show ?thesis by (simp add: py_match_def spec_line_import_def)
    next
      case True
      with c' a have "c' \<in> set cs" by auto
      with c'(2) have d3: "dropWhile is_space (cs @ e) = dropWhile is_space cs @ e"
        by (auto simp: dropWhile_append1)
      let ?s3 = "dropWhile is_space cs"
      let ?u = "dropWhile is_token_char ?s3"
      have t: "takeWhile is_token_char (?s3 @ e) = takeWhile is_token_char ?s3"
        and dr: "dropWhile is_token_char (?s3 @ e) = ?u @ e"
        using e by (rule token_run_line_end)+
      have pm: "py_match (l @ e) =
                  (if takeWhile is_token_char ?s3 = [] then None
                   else Some (takeWhile is_token_char ?s3, ?u @ e))"
        using Some ak a True by (simp add: py_match_def d3 t dr Let_def)
      have sp: "spec_line_import l =
                  (if takeWhile is_token_char ?s3 = [] then None else Some (takeWhile is_token_char ?s3))"
        using Some a True by (simp add: spec_line_import_def Let_def)
      have "set ?u \<subseteq> set l"
        using sub a set_dropWhileD [of _ is_token_char ?s3] set_dropWhileD [of _ is_space cs] by auto
      with nl have "CHR 0x0A \<notin> set ?u" by blast
      with pm sp show ?thesis by auto
    qed
  qed
qed

lemma findall_py_line:
  assumes nl: "CHR 0x0A \<notin> set l" and nk: "\<not> keyword_ends_line l" and e: "line_end e"
  shows "findall_from py_import_re (True, l @ e)
         = (case spec_line_import l of None \<Rightarrow> [] | Some x \<Rightarrow> [[(1, x)]]) @ next_line e"
proof (cases "\<forall>c \<in> set l. is_space c")
  case blank: True
  then have "dropWhile is_space l = []" by simp
  then have "after_keyword (dropWhile is_space l) = after_keyword []" by (rule arg_cong)
  then have "after_keyword (dropWhile is_space l) = None" by (simp add: after_keyword_def)
  then have spec: "spec_line_import l = None" by (simp only: spec_line_import_def option.case)
  have skip: "findall_from py_import_re (True, l @ e) = next_line e" if "py_match (l @ e) = None"
  proof (cases l)
    case Nil
    with that e show ?thesis
      by (cases e) (simp_all add: findall_py_unfold [of True] next_line_def line_end_def)
  next
    case (Cons c l')
    with nl have "c \<noteq> CHR 0x0A" "CHR 0x0A \<notin> set l'" by auto
    with that Cons have "findall_from py_import_re (True, l @ e) = findall_from py_import_re (False, l' @ e)"
      by (simp add: findall_py_unfold [of True "c # l' @ e"])
    also have "\<dots> = next_line e"
      using \<open>CHR 0x0A \<notin> set l'\<close> e by (rule findall_py_rest_of_line)
    finally show ?thesis .
  qed
  have "findall_from py_import_re (True, l @ e) = next_line e"
  proof (cases e)
    case Nil
    with py_match_blank_line(2) [OF blank] have "py_match (l @ e) = None" by simp
    then show ?thesis by (rule skip)
  next
    case (Cons c rest)
    with e have c: "c = CHR 0x0A" by (simp add: line_end_def)
    have pm: "py_match (l @ e) = py_match rest"
      using py_match_blank_line(1) [OF blank, of rest] Cons c by simp
    show ?thesis
    proof (cases "py_match rest")
      case None
      with pm show ?thesis by (intro skip) simp
    next
      case (Some m)
      obtain x rest' where m: "m = (x, rest')" by (cases m)
      have "findall_from py_import_re (True, l @ e) = [(1, x)] # findall_from py_import_re (False, rest')"
        using pm Some m by (simp add: findall_py_unfold [of True "l @ e"])
      moreover have "findall_from py_import_re (True, rest) = [(1, x)] # findall_from py_import_re (False, rest')"
        using Some m by (simp add: findall_py_unfold [of True rest])
      ultimately show ?thesis using Cons by (simp add: next_line_def)
    qed
  qed
  with spec show ?thesis by simp
next
  case False
  then have ns: "\<exists>c \<in> set l. \<not> is_space c" by blast
  note pl = py_match_line [OF nl ns nk e]
  from ns obtain c l' where l: "l = c # l'" by (cases l) auto
  with nl have cnl: "c \<noteq> CHR 0x0A" "CHR 0x0A \<notin> set l'" by auto
  show ?thesis
  proof (cases "spec_line_import l")
    case None
    with pl have "py_match (l @ e) = None" by blast
    with l cnl have "findall_from py_import_re (True, l @ e) = findall_from py_import_re (False, l' @ e)"
      by (simp add: findall_py_unfold [of True "c # l' @ e"])
    also have "\<dots> = next_line e"
      using cnl(2) e by (rule findall_py_rest_of_line)
    finally show ?thesis using None by simp
  next
    case (Some x)
    with pl obtain u where u: "CHR 0x0A \<notin> set u" "py_match (l @ e) = Some (x, u @ e)" by blast
    then have "findall_from py_import_re (True, l @ e) = [(1, x)] # findall_from py_import_re (False, u @ e)"
      by (simp add: findall_py_unfold [of True "l @ e"])
    also have "findall_from py_import_re (False, u @ e) = next_line e"
      using u(1) e by (rule findall_py_rest_of_line)
    finally show ?thesis using Some by simp
  qed
qed

lemma findall_py_lines:
  assumes "\<forall>l \<in> set (ls @ [last_line]). CHR 0x0A \<notin> set l \<and> \<not> keyword_ends_line l"
  shows "findall py_import_re (join_lines ls last_line)
         = map (\<lambda>x. [(1, x)]) (List.map_filter spec_line_import (ls @ [last_line]))"
  using assms
proof (induction ls)
  case Nil
  then have "findall_from py_import_re (True, last_line @ [])
             = (case spec_line_import last_line of None \<Rightarrow> [] | Some x \<Rightarrow> [[(1, x)]]) @ next_line []"
    by (intro findall_py_line) (simp_all add: line_end_def)
  then show ?case
    by (cases "spec_line_import last_line")
       (simp_all add: findall_def join_lines_def next_line_def map_filter_simps)
next
  case (Cons l ls)
  let ?e = "CHR 0x0A # join_lines ls last_line"
  from Cons.prems have "findall_from py_import_re (True, l @ ?e)
             = (case spec_line_import l of None \<Rightarrow> [] | Some x \<Rightarrow> [[(1, x)]]) @ next_line ?e"
    by (intro findall_py_line) (simp_all add: line_end_def)
  moreover have "next_line ?e = findall py_import_re (join_lines ls last_line)"
    by (simp add: next_line_def findall_def)
  moreover have "join_lines (l # ls) last_line = l @ ?e"
    by (simp add: join_lines_def)
  ultimately have "findall py_import_re (join_lines (l # ls) last_line)
        = (case spec_line_import l of None \<Rightarrow> [] | Some x \<Rightarrow> [[(1, x)]])
          @ findall py_import_re (join_lines ls last_line)"
    by (simp add: findall_def)
  with Cons show ?case
    by (cases "spec_line_import l") (simp_all add: map_filter_simps)
qed


lemma od_get_od_set:
  "od_get nk (od_set nk d k v) k' = (if nk k' = nk k then Some v else od_get nk d k')"
  by (induction d) auto

lemma dd_get_count_import:
  "dd_get id 0 (count_import imp imps) k = dd_get id 0 imps k + (if k = imp then 1 else 0)"
  by (simp add: count_import_def dd_get_def od_get_od_set)

lemma dd_get_fold_count_import:
  "dd_get id 0 (fold count_import xs imps) k = dd_get id 0 imps k + int (count_list xs k)"
  by (induction xs arbitrary: imps) (simp_all add: dd_get_count_import)

lemma extract_imports_py_lines:
  assumes "\<forall>l \<in> set (ls @ [last_line]). CHR 0x0A \<notin> set l \<and> \<not> keyword_ends_line l"
  shows "extract_imports (join_lines ls last_line) ''.py'' imps
         = fold count_import (List.map_filter spec_line_import (ls @ [last_line])) imps"
proof -
  have "extract_imports (join_lines ls last_line) ''.py'' imps
        = fold count_import (map (\<lambda>g. match_group g 1) (findall py_import_re (join_lines ls last_line))) imps"
    by (simp add: extract_imports_def fold_map comp_def)
  also have "map (\<lambda>g. match_group g 1) (findall py_import_re (join_lines ls last_line))
             = List.map_filter spec_line_import (ls @ [last_line])"
    unfolding findall_py_lines [OF assms] by (simp add: comp_def match_group_def)
  finally show ?thesis .
qed

text \<open>
  Claim C6, as stated, fails in its general part: in the text of the two lines
  \<open>import\<close> and \<open>import os\<close> the second line starts with \<open>import os\<close>, yet \<open>os\<close> is
  not counted; the pattern's \<open>\s+\<close> runs over the line break and captures the word
  \<open>import\<close> of the second line.
\<close>

theorem keyword_line_takes_next_token:
  "spec_line_import ''import os'' = Some ''os''
   \<and> extract_imports ''import\<newline>import os\<newline>'' ''.py'' [] = [(''import'', 1)]
   \<and> dd_get id 0 (extract_imports ''import\<newline>import os\<newline>'' ''.py'' []) ''os'' = 0"
  by code_simp

text \<open>
  Claim C6, amended. The three-line example gives exactly \<open>os\<close>: 2 and \<open>sys\<close>: 1. In
  general, for a text in which no line ends right after the keyword (nothing but
  whitespace following \<open>import\<close> or \<open>from\<close>), the counts after extraction are the counts
  before plus, for each name \<open>X\<close>, the number of lines that start, after optional
  indentation, with \<open>import X\<close> or \<open>from X\<close>; the name is taken as it stands.
\<close>

theorem python_import_counting:
  "extract_imports ''import os\<newline>import os\<newline>from sys import path\<newline>'' ''.py'' [] = [(''os'', 2), (''sys'', 1)]
   \<and> ((\<forall>l \<in> set (ls @ [last_line]). CHR 0x0A \<notin> set l \<and> \<not> keyword_ends_line l) \<longrightarrow>
        extract_imports (join_lines ls last_line) ''.py'' imps
          = fold count_import (List.map_filter spec_line_import (ls @ [last_line])) imps
        \<and> (\<forall>X. dd_get id 0 (extract_imports (join_lines ls last_line) ''.py'' imps) X
                  = dd_get id 0 imps X
                    + int (count_list (List.map_filter spec_line_import (ls @ [last_line])) X)))"
proof -
  have "extract_imports ''import os\<newline>import os\<newline>from sys import path\<newline>'' ''.py'' []
        = [(''os'', 2), (''sys'', 1)]"
    by code_simp
  then show ?thesis
    by (simp add: extract_imports_py_lines dd_get_fold_count_import del: set_append)
qed

theorem python_import_counting_witness:
  "extract_imports
     ''import os\<newline>    from a.b import c, d\<newline>x = 1  # import y\<newline>\<newline>import os''
     ''.py'' [(''sys'', 4)]
   = [(''sys'', 4), (''os'', 2), (''a.b'', 1)]"
proof -
  let ?ls = "[''import os'', ''    from a.b import c, d'', ''x = 1  # import y'', []]"
  have hyp: "\<forall>l \<in> set (?ls @ [''import os'']). CHR 0x0A \<notin> set l \<and> \<not> keyword_ends_line l"
    by code_simp
  have content: "join_lines ?ls ''import os''
        = ''import os\<newline>    from a.b import c, d\<newline>x = 1  # import y\<newline>\<newline>import os''"
    by code_simp
  have counts: "fold count_import (List.map_filter spec_line_import (?ls @ [''import os''])) [(''sys'', 4)]
        = [(''sys'', 4), (''os'', 2), (''a.b'', 1)]"
    by code_simp
  from python_import_counting [of ?ls "''import os''" "[(''sys'', 4)]"] hyp
  have "extract_imports (join_lines ?ls ''import os'') ''.py'' [(''sys'', 4)]
        = fold count_import (List.map_filter spec_line_import (?ls @ [''import os''])) [(''sys'', 4)]"
    by blast
  with content counts show ?thesis by simp
qed

section \<open>Progress reporting\<close>



lemma round_half_even_of_int [simp]: "round_half_even (of_int m) = m"
  by (simp add: round_half_even_def)





lemma binade_eq:
  assumes "0 < x" and "power_int 2 e \<le> x" and "x < power_int 2 (e + 1)"
  shows "binade x = e"
proof -
  have "2 powr (of_int e) \<le> x \<and> x < 2 powr (of_int e + 1)"
  proof -
    have "2 powr (of_int e + 1) = (2::real) powr (of_int (e + 1))" by simp
    then show ?thesis
      using assms by (simp only: powr_real_of_int' [of "2::real", simplified])
  qed
  then show ?thesis
    using floor_log_eq_powr_iff [of x 2 e] assms(1) by (simp add: binade_def)
qed







lemma double_round_pos:
  assumes "0 < x"
  shows "double_round x
         = of_int (round_half_even (x * power_int 2 (52 - binade x))) * power_int 2 (binade x - 52)"
  using assms by (simp add: double_round_def)

lemma double_round_eval:
  assumes "0 < x" and "power_int 2 e \<le> x" and "x < power_int 2 (e + 1)"
  shows "double_round x = of_int (round_half_even (x * power_int 2 (52 - e))) * power_int 2 (e - 52)"
  using double_round_pos [OF assms(1)] binade_eq [OF assms] by simp






lemma double_round_1 [simp]: "double_round 1 = 1"
proof -
  have "double_round 1 = of_int (round_half_even (1 * power_int 2 (52 - 0))) * power_int 2 (0 - 52)"
    by (rule double_round_eval) simp_all
  also have "(1 * power_int 2 (52 - 0) :: real) = of_int (2 ^ 52)" by simp
  finally show ?thesis by (simp only: round_half_even_of_int) simp
qed

lemma double_round_100 [simp]: "double_round 100 = 100"
proof -
  have "double_round 100 = of_int (round_half_even (100 * power_int 2 (52 - 6))) * power_int 2 (6 - 52)"
    by (rule double_round_eval) simp_all
  also have "(100 * power_int 2 (52 - 6) :: real) = of_int (100 * 2 ^ 46)" by simp
  finally show ?thesis by (simp only: round_half_even_of_int) simp
qed


















lemma generate_json_report_without_options:
  "generate_json_report failing top_dirs (new_data_source dir callback False) = Inl AttributeError"
proof -
  let ?ds1 = "scan_projects top_dirs (new_data_source dir callback False)"
  have "projects ?ds1 \<noteq> []" "\<not> snapshot_options ?ds1"
    by (simp_all add: scan_projects_def new_data_source_def Let_def)
  then show ?thesis
    by (cases "projects ?ds1") (simp_all add: generate_json_report_def Let_def)
qed




section \<open>Content of the report\<close>

text \<open>
  The languages of the report are pairwise distinct, and the file count of an entry is
  the sum of the file counts of the snapshots of its language.
\<close>

lemma file_counts_step:
  "file_counts (aggregate_step entry st) =
     (case snapshot_contribution entry of
        None \<Rightarrow> file_counts st
      | Some (l, n) \<Rightarrow> (file_counts st)(l := file_counts st l + n))"
  by (auto simp: aggregate_step_def snapshot_contribution_def process_snapshot_def Let_def
      split: option.splits json.splits)

lemma file_counts_fold:
  "file_counts (fold aggregate_step store st) l =
     file_counts st l
     + sum_list (map snd (filter (\<lambda>c. fst c = l) (List.map_filter snapshot_contribution store)))"
proof (induction store arbitrary: st)
  case Nil
  then show ?case by (simp add: map_filter_simps)
next
  case (Cons entry store)
  show ?case
  proof (cases "snapshot_contribution entry")
    case None
    then show ?thesis
      by (simp add: Cons.IH file_counts_step map_filter_simps)
  next
    case (Some c)
    obtain l' n where c: "c = (l', n)" by (cases c)
    with Some show ?thesis
      by (simp add: Cons.IH file_counts_step map_filter_simps)
  qed
qed

lemma od_set_keys:
  "map fst (od_set id d k v) = (if k \<in> fst ` set d then map fst d else map fst d @ [k])"
  by (induction d) (force+)

lemma od_set_distinct: "distinct (map fst d) \<Longrightarrow> distinct (map fst (od_set id d k v))"
  by (auto simp: od_set_keys)

lemma dd_touch_distinct: "distinct (map fst d) \<Longrightarrow> distinct (map fst (dd_touch id dflt d k))"
  by (auto simp: dd_touch_def od_set_distinct split: option.splits)

lemma add_import_distinct:
  assumes "distinct (map fst agg)"
  shows "case add_import agg lang import_name count of
           Inl agg' \<Rightarrow> distinct (map fst agg') | Inr agg' \<Rightarrow> distinct (map fst agg')"
  using assms
  by (auto simp: add_import_def Let_def od_set_distinct dd_touch_distinct split: option.splits)

lemma add_libraries_distinct:
  "distinct (map fst agg) \<Longrightarrow> distinct (map fst (add_libraries lang libs agg))"
proof (induction libs arbitrary: agg)
  case Nil
  then show ?case by simp
next
  case (Cons lib libs)
  show ?case
  proof (cases lib)
    case (JObj d)
    show ?thesis
    proof (cases "has_key d ''import_name'' \<and> has_key d ''count''")
      case True
      let ?r = "add_import agg lang (dict_get d ''import_name'' JNull) (dict_get d ''count'' JNull)"
      from add_import_distinct [OF Cons.prems, of lang "dict_get d ''import_name'' JNull" "dict_get d ''count'' JNull"]
      show ?thesis
        using JObj True Cons.IH by (cases ?r) simp_all
    next
      case False
      with JObj Cons show ?thesis by auto
    qed
  qed (use Cons in simp_all)
qed

lemma aggregate_step_distinct:
  "distinct (map fst (imports_agg st)) \<Longrightarrow> distinct (map fst (imports_agg (aggregate_step entry st)))"
  by (auto simp: aggregate_step_def process_snapshot_def Let_def add_libraries_distinct
      split: option.splits json.splits)

lemma fold_aggregate_distinct:
  "distinct (map fst (imports_agg st)) \<Longrightarrow> distinct (map fst (imports_agg (fold aggregate_step store st)))"
  by (induction store arbitrary: st) (simp_all add: aggregate_step_distinct)

lemma overall_data_languages:
  "map programming_language (overall_data st) = map fst (imports_agg st)"
  by (simp add: overall_data_def comp_def case_prod_beta)

lemma distinct_map_sorted_desc:
  "distinct (map g xs) \<Longrightarrow> distinct (map g (sorted_desc f xs))"
  by (simp add: distinct_map sorted_desc_def)

lemma aggregate_snapshots_distinct_languages:
  "distinct (map programming_language (aggregate_snapshots store))"
proof -
  have "distinct (map fst (imports_agg (fold aggregate_step store agg_init)))"
    by (rule fold_aggregate_distinct) (simp add: agg_init_def)
  then have "distinct (map programming_language (overall_data (fold aggregate_step store agg_init)))"
    by (simp only: overall_data_languages)
  then show ?thesis
    unfolding aggregate_snapshots_def by (rule distinct_map_sorted_desc)
qed

lemma aggregate_snapshots_file_count:
  assumes "e \<in> set (aggregate_snapshots store)"
  shows "file_count e =
           sum_list (map snd (filter (\<lambda>c. fst c = programming_language e)
                                     (List.map_filter snapshot_contribution store)))"
proof -
  from assms have "e \<in> set (overall_data (fold aggregate_step store agg_init))"
    by (simp add: aggregate_snapshots_def sorted_desc_set)
  then have "file_count e = file_counts (fold aggregate_step store agg_init) (programming_language e)"
    by (auto simp: overall_data_def)
  then show ?thesis
    by (simp add: file_counts_fold agg_init_def)
qed

end
